theory Spec2Isabelle
  imports Complex_Main "HOL-Library.AList"
begin

section \<open>Numbers and array primitives of the host language\<close>

text \<open>
  The dashboard is a TypeScript/React component; three versions of it are in the
  repository. The two that carry the measurement engine are modelled here: NetDash
  v3.5.0 (the time-boxed, multi-sample speed test) and NetDash v3.0.0 (the single-fetch
  speed test). Definitions without a suffix are shared by both files or belong to
  v3.5.0; definitions of v3.0.0 that differ carry the suffix \<open>_v30\<close>.

  JavaScript numbers are modelled as exact rationals: every quantity below is a finite
  number, and the model does not cover rounding error of IEEE doubles, \<open>Infinity\<close> or
  \<open>NaN\<close>. Durations are differences of \<open>performance.now()\<close> readings around network
  transfers and are taken to be positive (for a duration of 0 JavaScript computes
  \<open>Infinity\<close> where division in HOL gives 0; no theorem below depends on a speed
  computed from such a duration). \<open>Math.round\<close> rounds to the nearest integer, halves
  upwards.
\<close>

definition Math_round :: "rat \<Rightarrow> rat" where
  "Math_round x = of_int \<lfloor>x + 1 / 2\<rfloor>"

text \<open>
  \<open>xs.slice(start, fin)\<close>: negative indices count from the end, and indices are
  clamped to the array.
\<close>

definition slice :: "'a list \<Rightarrow> int \<Rightarrow> int \<Rightarrow> 'a list" where
  "slice xs start fin =
     (let n = int (length xs);
          k = (if start < 0 then max (n + start) 0 else min start n);
          final = (if fin < 0 then max (n + fin) 0 else min fin n)
      in take (nat (final - k)) (drop (nat k) xs))"

datatype exn =
    FetchRejected       \<comment> \<open>a \<open>fetch\<close> (or \<open>Promise.all\<close> over fetches) rejected\<close>
  | ReduceOfEmptyArray  \<comment> \<open>\<open>reduce\<close> without initial value on an empty array (a TypeError)\<close>
  | JSONSyntaxError     \<comment> \<open>\<open>JSON.parse\<close> on a string that is not JSON\<close>

text \<open>\<open>xs.reduce((a, b) => a + b)\<close>: throws on the empty array, folds from the left otherwise.\<close>

fun reduce_add :: "rat list \<Rightarrow> exn + rat" where
  "reduce_add [] = Inl ReduceOfEmptyArray"
| "reduce_add (x # xs) = Inr (foldl (+) x xs)"

text \<open>
  The expression \<open>Math.round(xs.reduce((a, b) => a + b) / xs.length)\<close>, which the speed
  test uses for the ping, for the running download average and for the final speed.
\<close>

definition roundedAverage :: "rat list \<Rightarrow> exn + rat" where
  "roundedAverage xs =
     (case reduce_add xs of
        Inl x \<Rightarrow> Inl x
      | Inr s \<Rightarrow> Inr (Math_round (s / of_nat (length xs))))"

text \<open>\<open>Math.max(x, ...xs)\<close> and \<open>Math.min(x, ...xs)\<close>: at least one argument.\<close>

definition Math_max :: "rat \<Rightarrow> rat list \<Rightarrow> rat" where
  "Math_max x xs = fold max xs x"

definition Math_min :: "rat \<Rightarrow> rat list \<Rightarrow> rat" where
  "Math_min x xs = fold min xs x"

section \<open>Aggregation of samples\<close>

text \<open>
  The end of the latency phase of \<open>runSpeedTest\<close>:
  \<^verbatim>\<open>avgPing = Math.round(pings.reduce((a, b) => a + b) / pings.length)\<close> and
  \<^verbatim>\<open>jitter = Math.round(Math.max(...pings) - Math.min(...pings))\<close>.
  The average is computed first, so an empty array throws from \<open>reduce\<close> and the
  maximum and minimum are only taken of a non-empty array.
\<close>

definition latencyStats :: "rat list \<Rightarrow> exn + rat \<times> rat" where
  "latencyStats pings =
     (case roundedAverage pings of
        Inl x \<Rightarrow> Inl x
      | Inr avgPing \<Rightarrow>
          Inr (avgPing, Math_round (Math_max (hd pings) (tl pings) - Math_min (hd pings) (tl pings))))"

text \<open>
  The tail of the download phase of \<open>runSpeedTest\<close> (v3.5.0): sort the samples
  ascending, drop the first and the last when there are more than two, and round the
  average of what is left.
\<close>

definition finalSpeedMbps :: "rat list \<Rightarrow> exn + rat" where
  "finalSpeedMbps unsorted =
     (let samples = sort unsorted
      in if length samples > 2
         then (let validSamples = slice samples 1 (- 1) in roundedAverage validSamples)
         else roundedAverage samples)"

section \<open>Component state\<close>

record SpeedTestResult =
  res_id :: int
  res_date :: string
  res_download :: rat
  res_upload :: rat
  res_ping :: rat
  res_isp :: string

datatype LogType = LogError | LogSuccess | LogInfo

record LogEntry =
  log_time :: string
  log_type :: LogType
  log_message :: string

record Metrics =
  download :: rat
  upload :: rat
  ping :: rat
  jitter :: rat
  signalStrength :: rat

text \<open>
  The React state of the component that the engine reads and writes (\<open>isp\<close> stands
  for \<open>networkInfo.isp\<close>), and the browser's \<open>localStorage\<close> as an association list.
  \<open>progressTrace\<close> is a history variable: the values \<open>setProgress\<close> was called with,
  oldest first. State is passed explicitly; a callback of a run sees the \<open>history\<close>
  and \<open>isp\<close> of the render in which the run started, which are the current ones, since
  nothing else writes them while a run is under way.
\<close>

record App =
  testing :: bool
  progress :: rat
  metrics :: Metrics
  history :: "SpeedTestResult list"
  logs :: "LogEntry list"
  isp :: string
  localStorage :: "(string \<times> string) list"
  progressTrace :: "rat list"

definition setTesting :: "bool \<Rightarrow> App \<Rightarrow> App" where
  "setTesting b st = st\<lparr>testing := b\<rparr>"

definition setProgress :: "rat \<Rightarrow> App \<Rightarrow> App" where
  "setProgress p st = st\<lparr>progress := p, progressTrace := progressTrace st @ [p]\<rparr>"

definition setMetrics :: "(Metrics \<Rightarrow> Metrics) \<Rightarrow> App \<Rightarrow> App" where
  "setMetrics f st = st\<lparr>metrics := f (metrics st)\<rparr>"

definition setHistory :: "SpeedTestResult list \<Rightarrow> App \<Rightarrow> App" where
  "setHistory h st = st\<lparr>history := h\<rparr>"

text \<open>
  \<open>addLog(type, message)\<close>; the third argument is what
  \<open>new Date().toLocaleTimeString()\<close> returns at the call.
\<close>

definition addLog :: "LogType \<Rightarrow> string \<Rightarrow> string \<Rightarrow> App \<Rightarrow> App" where
  "addLog ty msg time st =
     st\<lparr>logs := slice (\<lparr>log_time = time, log_type = ty, log_message = msg\<rparr> # logs st) 0 50\<rparr>"

text \<open>
  \<open>loadHistory\<close>. \<open>JSON.parse\<close> is a parameter: \<open>None\<close> when it throws, the parsed
  array otherwise. An absent key (\<open>null\<close>) and the empty string are falsy.
\<close>

definition loadHistory :: "(string \<Rightarrow> SpeedTestResult list option) \<Rightarrow> App \<Rightarrow> exn + App" where
  "loadHistory JSON_parse st =
     (case map_of (localStorage st) ''netdash_history'' of
        None \<Rightarrow> Inr st
      | Some saved \<Rightarrow>
          if saved = [] then Inr st
          else (case JSON_parse saved of
                  None \<Rightarrow> Inl JSONSyntaxError
                | Some parsed \<Rightarrow> Inr (setHistory parsed st)))"

text \<open>
  \<open>saveResult(newMetrics)\<close>. \<open>JSON.stringify\<close> is a parameter; \<open>now\<close> and \<open>date\<close> are
  what \<open>Date.now()\<close> and \<open>new Date().toLocaleString()\<close> return at the call.
\<close>

definition saveResult ::
  "(SpeedTestResult list \<Rightarrow> string) \<Rightarrow> Metrics \<Rightarrow> int \<Rightarrow> string \<Rightarrow> App \<Rightarrow> App" where
  "saveResult JSON_stringify newMetrics now date st =
     (let newEntry = \<lparr>res_id = now, res_date = date, res_download = download newMetrics,
                      res_upload = upload newMetrics, res_ping = ping newMetrics,
                      res_isp = isp st\<rparr>;
          updated = slice (newEntry # history st) 0 10
      in (setHistory updated st)
           \<lparr>localStorage :=
              AList.update ''netdash_history'' (JSON_stringify updated) (localStorage st)\<rparr>)"

text \<open>\<open>getQoS\<close>: name and verdict of each entry, in order (the icon is left out).\<close>

definition getQoS :: "Metrics \<Rightarrow> (string \<times> bool) list" where
  "getQoS m =
     (let s = download m; p = ping m
      in [(''4K Streaming'', s > 25),
          (''Online Gaming'', p < 50 \<and> p > 0),
          (''Video Calls'', s > 10 \<and> upload m > 2),
          (''Large Files'', s > 50)])"

section \<open>The environment of a run\<close>

text \<open>
  \<open>navigator.connection\<close> (the Network Information API): absent in browsers that do not
  implement it; \<open>rtt\<close> and \<open>type\<close> are attributes a browser may leave undefined.
\<close>

record Connection =
  effectiveType :: string
  rtt :: "rat option"
  connType :: "string option"

text \<open>
  One pass of the download loop of v3.5.0, as the clock and the network decide it:
  the value of \<open>performance.now() - testStart\<close> when the loop condition is evaluated,
  and the batch of six parallel fetches, which either rejects or completes with
  \<open>batchEnd - batchStart\<close> and with the later reading \<open>performance.now() - testStart\<close>
  (both in milliseconds).
\<close>

datatype batch = BatchRejected | BatchDone rat rat

text \<open>
  Everything a run reads from outside the component. \<open>pingProbe i\<close> is the round-trip
  time of the \<open>i\<close>-th favicon fetch, \<open>None\<close> when it rejects. \<open>iterations\<close> drives the
  download loop of v3.5.0 and \<open>imageFetch\<close> the single download of v3.0.0 (its
  \<open>endTime - startTime\<close>, \<open>None\<close> when it rejects). \<open>ticks\<close> is the number of times the
  ramp's interval timer fires before the closing timeout. The remaining fields are
  the wall-clock readings and conversions the log and history entries are built from.
\<close>

record env =
  connection :: "Connection option"
  pingProbe :: "nat \<Rightarrow> rat option"
  iterations :: "(rat \<times> batch) list"
  imageFetch :: "rat option"
  ticks :: nat
  startTime :: string
  endTime :: string
  endNow :: int
  endDate :: string
  numberToString :: "rat \<Rightarrow> string"
  JSON_stringify :: "SpeedTestResult list \<Rightarrow> string"

text \<open>How a call of \<open>runSpeedTest\<close> ends.\<close>

datatype result =
    Ignored      \<comment> \<open>\<open>if (testing) return\<close>\<close>
  | Completed    \<comment> \<open>all phases ran and the closing timeout has fired\<close>
  | Failed       \<comment> \<open>an exception reached the \<open>catch\<close> block\<close>
  | Raised exn   \<comment> \<open>an exception left the function: the returned promise rejects\<close>

section \<open>Latency phase\<close>

text \<open>
  \<^verbatim>\<open>for (let i = 0; i < n; i++) { ...await fetch...; pings.push(...); setProgress(pct(i)) }\<close>
  over the indices still to run. A rejected fetch throws out of the loop.
\<close>

fun pingLoop ::
  "(nat \<Rightarrow> rat option) \<Rightarrow> (nat \<Rightarrow> rat) \<Rightarrow> nat list \<Rightarrow> rat list \<Rightarrow> App \<Rightarrow> (exn + rat list) \<times> App" where
  "pingLoop probe pct [] pings st = (Inr pings, st)"
| "pingLoop probe pct (i # rest) pings st =
     (case probe i of
        None \<Rightarrow> (Inl FetchRejected, st)
      | Some ms \<Rightarrow> pingLoop probe pct rest (pings @ [ms]) (setProgress (pct i) st))"

text \<open>
  Phase 1 of \<open>runSpeedTest\<close>: the probes, the two statistics, and their publication
  with \<open>setMetrics\<close>. v3.5.0 issues 10 probes and reports progress \<open>5 + i\<close>; v3.0.0
  issues 5 probes and reports progress \<open>10 + i * 2\<close>.
\<close>

definition latencyPhase :: "env \<Rightarrow> App \<Rightarrow> (exn + rat \<times> rat) \<times> App" where
  "latencyPhase e st =
     (case pingLoop (pingProbe e) (\<lambda>i. 5 + of_nat i) [0..<10] [] st of
        (Inl x, st) \<Rightarrow> (Inl x, st)
      | (Inr pings, st) \<Rightarrow>
          (case latencyStats pings of
             Inl x \<Rightarrow> (Inl x, st)
           | Inr (avgPing, jit) \<Rightarrow>
               (Inr (avgPing, jit), setMetrics (\<lambda>prev. prev\<lparr>ping := avgPing, jitter := jit\<rparr>) st)))"

definition latencyPhase_v30 :: "env \<Rightarrow> App \<Rightarrow> (exn + rat \<times> rat) \<times> App" where
  "latencyPhase_v30 e st =
     (case pingLoop (pingProbe e) (\<lambda>i. 10 + of_nat i * 2) [0..<5] [] st of
        (Inl x, st) \<Rightarrow> (Inl x, st)
      | (Inr pings, st) \<Rightarrow>
          (case latencyStats pings of
             Inl x \<Rightarrow> (Inl x, st)
           | Inr (avgPing, jit) \<Rightarrow>
               (Inr (avgPing, jit), setMetrics (\<lambda>prev. prev\<lparr>ping := avgPing, jitter := jit\<rparr>) st)))"

section \<open>Display ramp\<close>

text \<open>
  The \<open>setInterval\<close> callback that both versions use to animate a metric towards a
  known value: \<open>current\<close> is the closure variable (\<open>upCurrent\<close> in v3.5.0, \<open>current\<close> in
  v3.0.0) and \<open>active\<close> tells whether the interval is still scheduled
  (\<open>clearInterval\<close> sets it to \<open>False\<close>). \<open>put\<close> writes the animated field of the
  metrics and \<open>cap\<close> is the bound of the progress increment.
\<close>

record Ramp =
  current :: rat
  active :: bool

definition intervalTick ::
  "(rat \<Rightarrow> Metrics \<Rightarrow> Metrics) \<Rightarrow> rat \<Rightarrow> rat \<Rightarrow> rat \<Rightarrow> Ramp \<times> App \<Rightarrow> Ramp \<times> App" where
  "intervalTick put cap target step = (\<lambda>(r, st).
     if \<not> active r then (r, st)
     else
       (let cur = current r + step;
            (r, st) =
              (if cur \<ge> target
               then (\<lparr>current = cur, active = False\<rparr>, setMetrics (put target) st)
               else (\<lparr>current = cur, active = True\<rparr>, setMetrics (put (Math_round cur)) st))
        in (r, setProgress (min (progress st + 1) cap) st)))"

text \<open>The upload ramp of v3.5.0 and the download ramp of v3.0.0.\<close>

definition upRamp :: "rat \<Rightarrow> rat \<Rightarrow> Ramp \<times> App \<Rightarrow> Ramp \<times> App" where
  "upRamp target upStep = intervalTick (\<lambda>v prev. prev\<lparr>upload := v\<rparr>) 100 target upStep"

definition ramp_v30 :: "rat \<Rightarrow> rat \<Rightarrow> Ramp \<times> App \<Rightarrow> Ramp \<times> App" where
  "ramp_v30 speedMbps step = intervalTick (\<lambda>v prev. prev\<lparr>download := v\<rparr>) 60 speedMbps step"

section \<open>The speed test of v3.5.0\<close>

definition fileSizeBits :: rat where
  "fileSizeBits = 5242880 * 8"

definition streams :: rat where
  "streams = 6"

definition durationLimit :: rat where
  "durationLimit = 6000"

text \<open>
  The \<open>while\<close> loop of the download phase. It runs as long as the clock says so; the
  list describes the passes the environment provides, and a list that ends while the
  loop condition still holds describes no complete run (\<open>None\<close>).
\<close>

fun downloadLoop :: "(rat \<times> batch) list \<Rightarrow> rat list \<Rightarrow> App \<Rightarrow> ((exn + rat list) \<times> App) option" where
  "downloadLoop [] samples st = None"
| "downloadLoop ((elapsed, b) # rest) samples st =
     (if elapsed < durationLimit then
        (case b of
           BatchRejected \<Rightarrow> Some (Inl FetchRejected, st)
         | BatchDone batchMs elapsedTime \<Rightarrow>
             (let durationSec = batchMs / 1000;
                  batchBits = fileSizeBits * streams;
                  speedMbps = (batchBits / durationSec) / 1024 / 1024;
                  samples = samples @ [speedMbps]
              in case roundedAverage samples of
                   Inl x \<Rightarrow> Some (Inl x, st)
                 | Inr currentAvg \<Rightarrow>
                     (let st = setMetrics (\<lambda>prev. prev\<lparr>download := currentAvg\<rparr>) st;
                          progressPct = min (20 + (elapsedTime / durationLimit) * 60) 80;
                          st = setProgress progressPct st
                      in downloadLoop rest samples st)))
      else Some (Inr samples, st))"

text \<open>
  Phase 2: the loop, the final aggregation, and the publication of the final speed.
  All of it stands inside the \<open>try\<close>.
\<close>

definition downloadPhase :: "env \<Rightarrow> App \<Rightarrow> ((exn + rat) \<times> App) option" where
  "downloadPhase e st =
     (case downloadLoop (iterations e) [] st of
        None \<Rightarrow> None
      | Some (Inl x, st) \<Rightarrow> Some (Inl x, st)
      | Some (Inr samples, st) \<Rightarrow>
          (case finalSpeedMbps samples of
             Inl x \<Rightarrow> Some (Inl x, st)
           | Inr finalSpeed \<Rightarrow>
               Some (Inr finalSpeed, setMetrics (\<lambda>prev. prev\<lparr>download := finalSpeed\<rparr>) st)))"

text \<open>\<open>connection?.rtt < 15\<close>: false when the connection or its \<open>rtt\<close> is undefined.\<close>

definition rttBelow15 :: "Connection option \<Rightarrow> bool" where
  "rttBelow15 c =
     (case c of
        None \<Rightarrow> False
      | Some k \<Rightarrow> (case rtt k of None \<Rightarrow> False | Some r \<Rightarrow> r < 15))"

definition simulatedUpload :: "Connection option \<Rightarrow> rat \<Rightarrow> rat" where
  "simulatedUpload c finalSpeed =
     (let ratio = (if rttBelow15 c then 8 / 10 else 2 / 10)
      in Math_round (finalSpeed * ratio))"

text \<open>
  Phase 3, the body of the \<open>setTimeout(..., 500)\<close> callback: the upload estimate, the
  ramp ticks that fire (interval of 100 ms), and the closing \<open>setTimeout(..., 2500)\<close>
  callback, which clears the interval, so that no tick follows it.
\<close>

definition uploadPhase :: "env \<Rightarrow> rat \<Rightarrow> rat \<Rightarrow> rat \<Rightarrow> App \<Rightarrow> App" where
  "uploadPhase e finalSpeed avgPing jit st =
     (let simUpload = simulatedUpload (connection e) finalSpeed;
          upStep = simUpload / 20;
          (r, st) = (upRamp simUpload upStep ^^ ticks e) (\<lparr>current = 0, active = True\<rparr>, st);
          st = setTesting False st;
          st = setProgress 100 st;
          finalResults = \<lparr>download = finalSpeed, upload = simUpload, ping = avgPing,
                          jitter = jit, signalStrength = max 0 (100 - avgPing)\<rparr>;
          st = setMetrics (\<lambda>prev. finalResults) st;
          st = saveResult (JSON_stringify e) finalResults (endNow e) (endDate e) st
      in addLog LogSuccess (''Test Complete: '' @ numberToString e finalSpeed @ '' Mbps'')
           (endTime e) st)"

text \<open>The \<open>catch\<close> block.\<close>

definition catchBlock :: "env \<Rightarrow> App \<Rightarrow> App" where
  "catchBlock e st =
     setTesting False (addLog LogError ''Speed test failed (CORS/Network Error)'' (endTime e) st)"

text \<open>
  \<open>runSpeedTest\<close>, followed through to the last timer it sets. \<open>startState\<close> is the
  block of state updates that opens a run. The latency phase stands before the \<open>try\<close>,
  so an exception from it leaves the function; the download phase stands inside it.
\<close>

definition startState :: "env \<Rightarrow> App \<Rightarrow> App" where
  "startState e st0 =
     (let st = setTesting True st0;
          st = setProgress 0 st;
          st = setMetrics (\<lambda>prev. prev\<lparr>download := 0, upload := 0, ping := 0, jitter := 0\<rparr>) st
      in addLog LogInfo ''Starting Precision Diagnostics...'' (startTime e) st)"

definition runSpeedTest :: "env \<Rightarrow> App \<Rightarrow> (result \<times> App) option" where
  "runSpeedTest e st0 =
     (if testing st0 then Some (Ignored, st0)
      else
        (case latencyPhase e (startState e st0) of
           (Inl x, st) \<Rightarrow> Some (Raised x, st)
         | (Inr (avgPing, jit), st) \<Rightarrow>
             (case downloadPhase e st of
                None \<Rightarrow> None
              | Some (Inl x, st) \<Rightarrow> Some (Failed, catchBlock e st)
              | Some (Inr finalSpeed, st) \<Rightarrow>
                  Some (Completed, uploadPhase e finalSpeed avgPing jit st))))"

section \<open>The speed test of v3.0.0\<close>

definition downloadSize :: rat where
  "downloadSize = 5000000"

definition simulatedUpload_v30 :: "Connection option \<Rightarrow> rat \<Rightarrow> rat" where
  "simulatedUpload_v30 c speedMbps =
     Math_round (speedMbps *
       (if (case c of None \<Rightarrow> False | Some k \<Rightarrow> connType k = Some ''cellular'')
        then 1 / 10 else 3 / 10))"

text \<open>
  What follows a successful image fetch: the download ramp (interval of 50 ms), the
  \<open>setTimeout(..., 1500)\<close> callback, and the ticks of the ramp that are still due
  afterwards, since this version's timeout does not clear the interval. The interval
  clears itself on its 20th tick at the latest, so 20 further ticks exhaust it.
\<close>

definition finishPhase_v30 :: "env \<Rightarrow> rat \<Rightarrow> rat \<Rightarrow> rat \<Rightarrow> App \<Rightarrow> App" where
  "finishPhase_v30 e speedMbps avgPing jit st =
     (let step = speedMbps / 20;
          (r, st) = (ramp_v30 speedMbps step ^^ ticks e) (\<lparr>current = 0, active = True\<rparr>, st);
          simUpload = simulatedUpload_v30 (connection e) speedMbps;
          st = setMetrics (\<lambda>prev. prev\<lparr>upload := simUpload, download := speedMbps\<rparr>) st;
          st = setProgress 100 st;
          st = setTesting False st;
          finalResults = \<lparr>download = speedMbps, upload = simUpload, ping = avgPing,
                          jitter = jit, signalStrength = max 0 (100 - avgPing)\<rparr>;
          st = setMetrics (\<lambda>prev. finalResults) st;
          st = saveResult (JSON_stringify e) finalResults (endNow e) (endDate e) st;
          st = addLog LogSuccess (''Test Complete: '' @ numberToString e speedMbps @ '' Mbps'')
                 (endTime e) st
      in snd ((ramp_v30 speedMbps step ^^ 20) (r, st)))"

definition catchBlock_v30 :: "env \<Rightarrow> App \<Rightarrow> App" where
  "catchBlock_v30 e st =
     setTesting False (addLog LogError ''Speed test failed (Network Error)'' (endTime e) st)"

definition startState_v30 :: "env \<Rightarrow> App \<Rightarrow> App" where
  "startState_v30 e st0 =
     (let st = setTesting True st0;
          st = setProgress 0 st
      in addLog LogInfo ''Starting Diagnostics...'' (startTime e) st)"

text \<open>The measured speed, from \<open>endTime - startTime\<close> of the image fetch in milliseconds.\<close>

definition speedMbps_v30 :: "rat \<Rightarrow> rat" where
  "speedMbps_v30 ms =
     (let durationSeconds = ms / 1000;
          bitsLoaded = downloadSize * 8;
          speedBps = bitsLoaded / durationSeconds
      in Math_round (speedBps / 1024 / 1024))"

definition runSpeedTest_v30 :: "env \<Rightarrow> App \<Rightarrow> result \<times> App" where
  "runSpeedTest_v30 e st0 =
     (if testing st0 then (Ignored, st0)
      else
        (case latencyPhase_v30 e (startState_v30 e st0) of
           (Inl x, st) \<Rightarrow> (Raised x, st)
         | (Inr (avgPing, jit), st) \<Rightarrow>
             (case imageFetch e of
                None \<Rightarrow> (Failed, catchBlock_v30 e st)
              | Some ms \<Rightarrow>
                  (Completed, finishPhase_v30 e (speedMbps_v30 ms) avgPing jit st))))"

section \<open>Initial state and sample inputs\<close>

text \<open>
  The state the component starts with (the arguments of its \<open>useState\<close> calls), with
  nothing stored yet.
\<close>

definition initialApp :: App where
  "initialApp =
     \<lparr>testing = False, progress = 0,
      metrics = \<lparr>download = 0, upload = 0, ping = 0, jitter = 0, signalStrength = 0\<rparr>,
      history = [], logs = [], isp = ''Loading...'', localStorage = [],
      progressTrace = []\<rparr>"

text \<open>A history entry created at time \<open>t\<close>, and a stand-in for the JSON text of a history.\<close>

definition resultAt :: "int \<Rightarrow> SpeedTestResult" where
  "resultAt t =
     \<lparr>res_id = t, res_date = ''1/1/2024'', res_download = 50, res_upload = 10,
      res_ping = 20, res_isp = ''ExampleISP''\<rparr>"

definition idsText :: "SpeedTestResult list \<Rightarrow> string" where
  "idsText h = map (\<lambda>r. if res_id r < 0 then CHR ''-'' else CHR ''+'') h"

text \<open>
  The decimal text of a non-negative integer: what a template literal prints for the
  speeds of the sample runs.
\<close>

fun decimal :: "nat \<Rightarrow> string" where
  "decimal n =
     (if n < 10 then [''0123456789'' ! n]
      else decimal (n div 10) @ [''0123456789'' ! (n mod 10)])"

definition integerText :: "rat \<Rightarrow> string" where
  "integerText r = decimal (nat \<lfloor>r\<rfloor>)"

text \<open>
  An environment in which the latency probes take 20, 22, 21, 19, 23 ms in turn, two
  download batches of 3000 ms and 3100 ms complete before the six seconds are over, the
  image of v3.0.0 arrives after 2000 ms, and no connection information is available.
\<close>

definition quietEnv :: env where
  "quietEnv =
     \<lparr>connection = None, pingProbe = (\<lambda>i. Some ([20, 22, 21, 19, 23] ! (i mod 5))),
      iterations = [(0, BatchDone 3000 3001), (3002, BatchDone 3100 6103), (6104, BatchRejected)],
      imageFetch = Some 2000, ticks = 24,
      startTime = ''10:00:00'', endTime = ''10:00:10'', endNow = 1700000000000,
      endDate = ''1/1/2024'', numberToString = integerText, JSON_stringify = idsText\<rparr>"

text \<open>
  The same environment with a network failure: the fourth latency probe rejects; the
  second download batch (of v3.5.0) rejects and the image fetch (of v3.0.0) rejects.
\<close>

definition pingFailEnv :: env where
  "pingFailEnv = quietEnv\<lparr>pingProbe := (\<lambda>i. if i = 3 then None else Some 20)\<rparr>"

definition batchFailEnv :: env where
  "batchFailEnv =
     quietEnv\<lparr>iterations := [(0, BatchDone 3000 3001), (3002, BatchRejected)],
              imageFetch := None\<rparr>"


definition slowPingEnv :: env where
  "slowPingEnv = quietEnv\<lparr>pingProbe := (\<lambda>i. Some 400)\<rparr>"

definition slowLinkEnv :: env where
  "slowLinkEnv = quietEnv\<lparr>iterations := [(0, BatchDone 20000 20001), (20002, BatchRejected)]\<rparr>"

definition fiberEnv :: env where
  "fiberEnv =
     quietEnv\<lparr>connection := Some \<lparr>effectiveType = ''4g'', rtt = Some 5, connType = None\<rparr>\<rparr>"

definition cellularEnv :: env where
  "cellularEnv =
     quietEnv\<lparr>connection :=
       Some \<lparr>effectiveType = ''4g'', rtt = Some 60, connType = Some ''cellular''\<rparr>\<rparr>"

text \<open>
  The clock behind \<open>performance.now()\<close> is monotonic: the readings of
  \<open>performance.now() - testStart\<close> taken after the completed batches are non-negative
  and never decrease.
\<close>

fun elapsedTimes :: "(rat \<times> batch) list \<Rightarrow> rat list" where
  "elapsedTimes [] = []"
| "elapsedTimes ((elapsed, BatchRejected) # rest) = elapsedTimes rest"
| "elapsedTimes ((elapsed, BatchDone batchMs elapsedTime) # rest) = elapsedTime # elapsedTimes rest"

definition monotoneClock :: "(rat \<times> batch) list \<Rightarrow> bool" where
  "monotoneClock its = (sorted (elapsedTimes its) \<and> list_all (\<lambda>t. 0 \<le> t) (elapsedTimes its))"

section \<open>Notions of the specification\<close>

text \<open>The arithmetic mean, as the specification uses the word.\<close>

definition mean :: "rat list \<Rightarrow> rat" where
  "mean xs = sum_list xs / of_nat (length xs)"


section \<open>Properties of the array primitives\<close>

lemma foldl_add_sum_list: "foldl (+) (x::rat) xs = x + sum_list xs"
  by (induction xs arbitrary: x) (simp_all add: add.assoc)

lemma reduce_add_sum_list: "xs \<noteq> [] \<Longrightarrow> reduce_add xs = Inr (sum_list xs)"
  by (cases xs) (simp_all add: foldl_add_sum_list)

lemma roundedAverage_nonempty:
  "xs \<noteq> [] \<Longrightarrow> roundedAverage xs = Inr (Math_round (mean xs))"
  by (simp add: roundedAverage_def reduce_add_sum_list mean_def)

lemma slice_prefix: "slice xs 0 (int n) = take n xs"
  by (simp add: slice_def Let_def min_def)

lemma slice_log_bound: "slice xs 0 50 = take 50 xs"
  using slice_prefix [of xs 50] by simp








section \<open>Final aggregation of the throughput samples\<close>






section \<open>Effects of the phases of a run\<close>

lemmas setters = setTesting_def setProgress_def setMetrics_def setHistory_def addLog_def

lemma pingLoop_Inr:
  "pingLoop probe pct is pings st = (Inr ps, st') \<Longrightarrow>
   ps = pings @ map (the \<circ> probe) is \<and> (\<forall>i \<in> set is. probe i \<noteq> None) \<and>
   st' = st\<lparr>progress := last (progress st # map pct is),
            progressTrace := progressTrace st @ map pct is\<rparr>"
proof (induction "is" arbitrary: pings st)
  case Nil
  then show ?case by simp
next
  case (Cons i rest)
  then obtain ms where ms: "probe i = Some ms"
    by (cases "probe i") auto
  with Cons.prems have "pingLoop probe pct rest (pings @ [ms]) (setProgress (pct i) st) = (Inr ps, st')"
    by simp
  from Cons.IH [OF this] ms show ?case
    by (simp add: setProgress_def)
qed

lemma progress_step_mono: "a \<le> b \<Longrightarrow> min (20 + (a / durationLimit) * 60) 80 \<le> min (20 + (b / durationLimit) * 60) (80::rat)"
  by (simp add: durationLimit_def min_def divide_right_mono)

lemma downloadLoop_effect:
  "downloadLoop its samples st = Some (r, st') \<Longrightarrow>
   sorted (elapsedTimes its) \<Longrightarrow> \<forall>t \<in> set (elapsedTimes its). t0 \<le> t \<Longrightarrow>
   \<exists>tr. progressTrace st' = progressTrace st @ tr \<and> sorted tr \<and>
        (\<forall>p \<in> set tr. min (20 + (t0 / durationLimit) * 60) 80 \<le> p \<and> p \<le> 80) \<and>
        progress st' = last (progress st # tr) \<and>
        testing st' = testing st \<and> logs st' = logs st \<and> history st' = history st \<and>
        isp st' = isp st \<and> localStorage st' = localStorage st \<and>
        ping (metrics st') = ping (metrics st) \<and> jitter (metrics st') = jitter (metrics st)"
proof (induction its samples st arbitrary: t0 rule: downloadLoop.induct)
  case (1 samples st)
  then show ?case by simp
next
  case (2 elapsed b rest samples st)
  show ?case
  proof (cases "elapsed < durationLimit")
    case False
    with "2.prems" show ?thesis by auto
  next
    case True
    show ?thesis
    proof (cases b)
      case BatchRejected
      with True "2.prems" show ?thesis by auto
    next
      case (BatchDone batchMs elapsedTime)
      define speed where "speed = (fileSizeBits * streams / (batchMs / 1000)) / 1024 / 1024"
      define avg where "avg = Math_round (mean (samples @ [speed]))"
      define p where "p = min (20 + (elapsedTime / durationLimit) * 60) 80"
      define st1 where "st1 = setProgress p (setMetrics (\<lambda>prev. prev\<lparr>download := avg\<rparr>) st)"
      have ra: "roundedAverage (samples @ [speed]) = Inr avg"
        by (simp add: roundedAverage_nonempty avg_def)
      have "downloadLoop ((elapsed, b) # rest) samples st = downloadLoop rest (samples @ [speed]) st1"
        unfolding speed_def p_def st1_def BatchDone using True ra [unfolded speed_def]
        by (simp only: downloadLoop.simps Let_def if_True batch.case sum.case)
      then have run: "downloadLoop rest (samples @ [speed]) st1 = Some (r, st')"
        using "2.prems"(1) by simp
      have srt: "sorted (elapsedTimes rest)" and ge: "\<forall>t \<in> set (elapsedTimes rest). elapsedTime \<le> t"
        and t0: "t0 \<le> elapsedTime"
        using "2.prems"(2,3) BatchDone by auto
      have "\<exists>tr. progressTrace st' = progressTrace st1 @ tr \<and> sorted tr \<and>
        (\<forall>q \<in> set tr. p \<le> q \<and> q \<le> 80) \<and>
        progress st' = last (progress st1 # tr) \<and>
        testing st' = testing st1 \<and> logs st' = logs st1 \<and> history st' = history st1 \<and>
        isp st' = isp st1 \<and> localStorage st' = localStorage st1 \<and>
        ping (metrics st') = ping (metrics st1) \<and> jitter (metrics st') = jitter (metrics st1)"
        using "2.IH" [OF True BatchDone refl refl refl refl ra [unfolded speed_def] refl refl refl, folded speed_def p_def st1_def, OF run srt ge]
        unfolding p_def by blast
      then obtain tr where tr: "progressTrace st' = progressTrace st1 @ tr" "sorted tr"
        "\<forall>q \<in> set tr. p \<le> q \<and> q \<le> 80" "progress st' = last (progress st1 # tr)"
        "testing st' = testing st1" "logs st' = logs st1" "history st' = history st1"
        "isp st' = isp st1" "localStorage st' = localStorage st1"
        "ping (metrics st') = ping (metrics st1)" "jitter (metrics st') = jitter (metrics st1)"
        by blast
      have pb: "min (20 + (t0 / durationLimit) * 60) 80 \<le> p" "p \<le> 80"
        using progress_step_mono [OF t0] by (simp_all add: p_def)
      have "progressTrace st' = progressTrace st @ (p # tr)"
        using tr(1) by (simp add: st1_def setters)
      moreover have "sorted (p # tr)"
        using tr(2,3) by simp
      moreover have "\<forall>q \<in> set (p # tr). min (20 + (t0 / durationLimit) * 60) 80 \<le> q \<and> q \<le> 80"
        using tr(3) pb by auto
      moreover have "progress st' = last (progress st # p # tr)"
        using tr(4) by (simp add: st1_def setters)
      ultimately show ?thesis
        using tr(5-) by (intro exI [of _ "p # tr"]) (simp add: st1_def setters)
    qed
  qed
qed


lemma intervalTick_cases:
  "intervalTick put cap target step (r, st) =
     (if \<not> active r then (r, st)
      else if target \<le> current r + step
      then (\<lparr>current = current r + step, active = False\<rparr>,
            setProgress (min (progress st + 1) cap) (setMetrics (put target) st))
      else (\<lparr>current = current r + step, active = True\<rparr>,
            setProgress (min (progress st + 1) cap) (setMetrics (put (Math_round (current r + step))) st)))"
  by (simp add: intervalTick_def Let_def setters)

lemma intervalTick_frame:
  assumes "intervalTick put cap target step (r, st) = (r', st')" and "progress st \<le> cap"
  shows "(progressTrace st' = progressTrace st \<and> progress st' = progress st \<or>
          progressTrace st' = progressTrace st @ [progress st'] \<and> progress st \<le> progress st') \<and>
         progress st' \<le> cap \<and>
         testing st' = testing st \<and> logs st' = logs st \<and> history st' = history st \<and>
         isp st' = isp st \<and> localStorage st' = localStorage st \<and>
         (\<exists>v. metrics st' = metrics st \<or> metrics st' = put v (metrics st))"
  using assms unfolding intervalTick_cases
  by (auto simp add: setters split: if_splits)

lemma intervalTicks_effect:
  assumes "(intervalTick put cap target step ^^ n) (r, st) = (r', st')" and "progress st \<le> cap"
    and "\<And>v m. f (put v m) = f m"
  shows "\<exists>tr. progressTrace st' = progressTrace st @ tr \<and> sorted tr \<and>
          (\<forall>p \<in> set tr. progress st \<le> p \<and> p \<le> cap) \<and>
          progress st' = last (progress st # tr) \<and>
          testing st' = testing st \<and> logs st' = logs st \<and> history st' = history st \<and>
          isp st' = isp st \<and> localStorage st' = localStorage st \<and>
          f (metrics st') = f (metrics st)"
  using assms(1)
proof (induction n arbitrary: r' st')
  case 0
  then show ?case by simp
next
  case (Suc n)
  obtain r1 st1 where mid: "(intervalTick put cap target step ^^ n) (r, st) = (r1, st1)"
    by (cases "(intervalTick put cap target step ^^ n) (r, st)")
  with Suc.prems have last: "intervalTick put cap target step (r1, st1) = (r', st')"
    by simp
  from Suc.IH [OF mid] obtain tr where tr: "progressTrace st1 = progressTrace st @ tr" "sorted tr"
    "\<forall>p \<in> set tr. progress st \<le> p \<and> p \<le> cap" "progress st1 = last (progress st # tr)"
    "testing st1 = testing st" "logs st1 = logs st" "history st1 = history st"
    "isp st1 = isp st" "localStorage st1 = localStorage st" "f (metrics st1) = f (metrics st)"
    by blast
  have le_cap: "progress st1 \<le> cap" and ge: "progress st \<le> progress st1"
    using tr(3,4) assms(2) by (cases tr rule: rev_cases; simp)+
  have below: "\<forall>p \<in> set tr. p \<le> progress st1"
    using tr(2,4) by (cases tr rule: rev_cases) (auto simp add: sorted_append)
  note fr = intervalTick_frame [OF last le_cap]
  have same: "testing st' = testing st" "logs st' = logs st" "history st' = history st"
    "isp st' = isp st" "localStorage st' = localStorage st" "f (metrics st') = f (metrics st)"
    using fr tr(5-) assms(3) by auto
  from fr consider "progressTrace st' = progressTrace st1" "progress st' = progress st1"
    | "progressTrace st' = progressTrace st1 @ [progress st']" "progress st1 \<le> progress st'"
    by blast
  then show ?case
  proof cases
    case 1
    then show ?thesis
      using tr(1-4) same by (intro exI [of _ tr]) simp
  next
    case 2
    have "sorted (tr @ [progress st'])"
      using tr(2) below 2(2) by (auto simp add: sorted_append)
    moreover have "\<forall>p \<in> set (tr @ [progress st']). progress st \<le> p \<and> p \<le> cap"
      using tr(3) fr ge 2(2) by auto
    ultimately show ?thesis
      using tr(1) 2(1) same by (intro exI [of _ "tr @ [progress st']"]) simp
  qed
qed



lemma pingLoop_pings:
  assumes "pingLoop probe pct [0..<n] [] st = (Inr pings, st')"
  shows "length pings = n" and "\<forall>i<n. probe i = Some (pings ! i)"
proof -
  from pingLoop_Inr [OF assms] have ps: "pings = map (the \<circ> probe) [0..<n]"
    and some: "\<forall>i \<in> set [0..<n]. probe i \<noteq> None"
    by simp_all
  show "length pings = n" using ps by simp
  show "\<forall>i<n. probe i = Some (pings ! i)"
    using ps some by auto
qed

lemma latencyPhase_Inr:
  assumes "latencyPhase e st = (Inr (avgPing, jit), st')"
  shows "\<exists>pings. length pings = 10 \<and> (\<forall>i<10. pingProbe e i = Some (pings ! i)) \<and>
           latencyStats pings = Inr (avgPing, jit) \<and>
           st' = st\<lparr>progress := 14,
                    progressTrace := progressTrace st @ [5, 6, 7, 8, 9, 10, 11, 12, 13, 14],
                    metrics := (metrics st)\<lparr>ping := avgPing, jitter := jit\<rparr>\<rparr>"
proof -
  obtain pr st2 where pl: "pingLoop (pingProbe e) (\<lambda>i. 5 + of_nat i) [0..<10] [] st = (pr, st2)"
    by (cases "pingLoop (pingProbe e) (\<lambda>i. 5 + of_nat i) [0..<10] [] st")
  from assms pl obtain pings where pr: "pr = Inr pings"
    by (cases pr) (simp_all add: latencyPhase_def del: upt_rec_numeral)
  from assms pl pr have stats: "latencyStats pings = Inr (avgPing, jit)"
    and st': "st' = setMetrics (\<lambda>prev. prev\<lparr>ping := avgPing, jitter := jit\<rparr>) st2"
    by (auto simp add: latencyPhase_def simp del: upt_rec_numeral split: sum.splits)
  from pingLoop_Inr [OF pl [unfolded pr]]
  have st2: "st2 = st\<lparr>progress := last (progress st # map (\<lambda>i. 5 + of_nat i) [0..<10]),
      progressTrace := progressTrace st @ map (\<lambda>i. 5 + of_nat i) [0..<10]\<rparr>"
    by blast
  have "map (\<lambda>i. 5 + rat_of_nat i) [0..<10] = [5, 6, 7, 8, 9, 10, 11, 12, 13, 14]"
    by code_simp
  with st2 st' have "st' = st\<lparr>progress := 14,
      progressTrace := progressTrace st @ [5, 6, 7, 8, 9, 10, 11, 12, 13, 14],
      metrics := (metrics st)\<lparr>ping := avgPing, jitter := jit\<rparr>\<rparr>"
    by (simp add: setters)
  with pingLoop_pings [OF pl [unfolded pr]] stats show ?thesis
    by blast
qed

lemma downloadPhase_effect:
  assumes "downloadPhase e st = Some (r, st')" and "monotoneClock (iterations e)"
  shows "\<exists>tr. progressTrace st' = progressTrace st @ tr \<and> sorted tr \<and>
          (\<forall>p \<in> set tr. 20 \<le> p \<and> p \<le> 80) \<and>
          progress st' = last (progress st # tr) \<and>
          testing st' = testing st \<and> logs st' = logs st \<and> history st' = history st \<and>
          isp st' = isp st \<and> localStorage st' = localStorage st \<and>
          ping (metrics st') = ping (metrics st) \<and> jitter (metrics st') = jitter (metrics st) \<and>
          (\<forall>finalSpeed. r = Inr finalSpeed \<longrightarrow> download (metrics st') = finalSpeed)"
proof -
  from assms(1) obtain dr st1 where dl: "downloadLoop (iterations e) [] st = Some (dr, st1)"
    by (cases "downloadLoop (iterations e) [] st") (auto simp add: downloadPhase_def)
  have srt: "sorted (elapsedTimes (iterations e))"
    and nonneg: "\<forall>t \<in> set (elapsedTimes (iterations e)). 0 \<le> t"
    using assms(2) by (simp_all add: monotoneClock_def list_all_iff)
  from downloadLoop_effect [OF dl srt nonneg]
  obtain tr where tr: "progressTrace st1 = progressTrace st @ tr" "sorted tr"
    "\<forall>p \<in> set tr. 20 \<le> p \<and> p \<le> 80" "progress st1 = last (progress st # tr)"
    "testing st1 = testing st" "logs st1 = logs st" "history st1 = history st"
    "isp st1 = isp st" "localStorage st1 = localStorage st"
    "ping (metrics st1) = ping (metrics st)" "jitter (metrics st1) = jitter (metrics st)"
    by auto
  show ?thesis
  proof (cases dr)
    case (Inl x)
    with assms(1) dl have "st' = st1" "r = Inl x"
      by (simp_all add: downloadPhase_def)
    with tr show ?thesis by (intro exI [of _ tr]) auto
  next
    case (Inr samples)
    show ?thesis
    proof (cases "finalSpeedMbps samples")
      case (Inl x)
      with assms(1) dl Inr have "st' = st1" "r = Inl x"
        by (simp_all add: downloadPhase_def)
      with tr show ?thesis by (intro exI [of _ tr]) auto
    next
      case fs: (Inr finalSpeed)
      with assms(1) dl Inr have "st' = setMetrics (\<lambda>prev. prev\<lparr>download := finalSpeed\<rparr>) st1"
        "r = Inr finalSpeed"
        by (simp_all add: downloadPhase_def)
      with tr show ?thesis by (intro exI [of _ tr]) (simp add: setters)
    qed
  qed
qed

lemma uploadPhase_effect:
  assumes "progress st \<le> 100"
  shows "\<exists>tr. progressTrace (uploadPhase e finalSpeed avgPing jit st) = progressTrace st @ tr @ [100] \<and>
          sorted tr \<and> (\<forall>p \<in> set tr. progress st \<le> p \<and> p \<le> 100) \<and>
          progress (uploadPhase e finalSpeed avgPing jit st) = 100 \<and>
          \<not> testing (uploadPhase e finalSpeed avgPing jit st) \<and>
          metrics (uploadPhase e finalSpeed avgPing jit st) =
            \<lparr>download = finalSpeed, upload = simulatedUpload (connection e) finalSpeed,
             ping = avgPing, jitter = jit, signalStrength = max 0 (100 - avgPing)\<rparr>"
proof -
  define target where "target = simulatedUpload (connection e) finalSpeed"
  obtain r st1 where ramp: "(upRamp target (target / 20) ^^ ticks e) (\<lparr>current = 0, active = True\<rparr>, st) = (r, st1)"
    by (cases "(upRamp target (target / 20) ^^ ticks e) (\<lparr>current = 0, active = True\<rparr>, st)")
  have "\<exists>tr. progressTrace st1 = progressTrace st @ tr \<and> sorted tr \<and>
          (\<forall>p \<in> set tr. progress st \<le> p \<and> p \<le> 100) \<and>
          progress st1 = last (progress st # tr) \<and>
          testing st1 = testing st \<and> logs st1 = logs st \<and> history st1 = history st \<and>
          isp st1 = isp st \<and> localStorage st1 = localStorage st \<and>
          ping (metrics st1) = ping (metrics st)"
    by (rule intervalTicks_effect [OF ramp [unfolded upRamp_def] assms]) simp
  then obtain tr where tr: "progressTrace st1 = progressTrace st @ tr" "sorted tr"
    "\<forall>p \<in> set tr. progress st \<le> p \<and> p \<le> 100"
    by auto
  have up: "uploadPhase e finalSpeed avgPing jit st =
    addLog LogSuccess (''Test Complete: '' @ numberToString e finalSpeed @ '' Mbps'') (endTime e)
      (saveResult (JSON_stringify e) \<lparr>download = finalSpeed, upload = target,
             ping = avgPing, jitter = jit, signalStrength = max 0 (100 - avgPing)\<rparr> (endNow e) (endDate e)
        (setMetrics (\<lambda>prev. \<lparr>download = finalSpeed, upload = target,
             ping = avgPing, jitter = jit, signalStrength = max 0 (100 - avgPing)\<rparr>)
          (setProgress 100 (setTesting False st1))))"
    using ramp by (simp add: uploadPhase_def Let_def target_def)
  show ?thesis
    unfolding up using tr
    by (intro exI [of _ tr]) (simp add: setters saveResult_def Let_def target_def)
qed


lemma pingLoop_trace:
  "pingLoop probe pct is pings st = (r, st') \<Longrightarrow>
   \<exists>k. progressTrace st' = progressTrace st @ map pct (take k is) \<and>
       progress st' = last (progress st # map pct (take k is))"
proof (induction "is" arbitrary: pings st)
  case Nil
  then show ?case by simp
next
  case (Cons i rest)
  show ?case
  proof (cases "probe i")
    case None
    with Cons.prems have "st' = st" by simp
    then show ?thesis by (intro exI [of _ 0]) simp
  next
    case (Some ms)
    with Cons.prems have "pingLoop probe pct rest (pings @ [ms]) (setProgress (pct i) st) = (r, st')"
      by simp
    from Cons.IH [OF this] obtain k where
      "progressTrace st' = progressTrace (setProgress (pct i) st) @ map pct (take k rest)"
      "progress st' = last (progress (setProgress (pct i) st) # map pct (take k rest))"
      by blast
    then show ?thesis
      by (intro exI [of _ "Suc k"]) (simp add: setProgress_def)
  qed
qed

lemma sorted_ping_progress: "sorted (0 # map (\<lambda>i. 5 + rat_of_nat i) (take k [0..<10]))"
proof -
  have all: "map (\<lambda>i. 5 + rat_of_nat i) [0..<10] = [5, 6, 7, 8, 9, 10, 11, 12, 13, 14]"
    by code_simp
  have "sorted (take k [5, 6, 7, 8, 9, 10, 11, 12, 13, 14::rat])"
    by (rule sorted_wrt_take) simp
  moreover have "\<forall>p \<in> set (take k [5, 6, 7, 8, 9, 10, 11, 12, 13, 14::rat]). 0 \<le> p"
    by (auto dest!: in_set_takeD)
  ultimately show ?thesis
    by (simp add: take_map [symmetric] all)
qed

lemma startState_simps:
  "progressTrace (startState e st) = progressTrace st @ [0]" "progress (startState e st) = 0"
  "testing (startState e st)"
  by (simp_all add: startState_def setters Let_def)

lemma catchBlock_simps:
  "progressTrace (catchBlock e st) = progressTrace st" "progress (catchBlock e st) = progress st"
  "\<not> testing (catchBlock e st)"
  "logs (catchBlock e st) =
     take 50 (\<lparr>log_time = endTime e, log_type = LogError,
                log_message = ''Speed test failed (CORS/Network Error)''\<rparr> # logs st)"
  by (simp_all add: catchBlock_def setters slice_log_bound)

section \<open>Sample runs\<close>

text \<open>
  The runs of the sample environments from the initial state, evaluated phase by phase.
\<close>

lemma quiet_run:
  "runSpeedTest quietEnv initialApp =
     Some (Completed,
       \<lparr>testing = False, progress = 100,
        metrics = \<lparr>download = 79, upload = 16, ping = 21, jitter = 4, signalStrength = 79\<rparr>,
        history = [\<lparr>res_id = 1700000000000, res_date = ''1/1/2024'', res_download = 79,
            res_upload = 16, res_ping = 21, res_isp = ''Loading...''\<rparr>],
        logs = [\<lparr>log_time = ''10:00:10'', log_type = LogSuccess, log_message = ''Test Complete: 79 Mbps''\<rparr>,
                \<lparr>log_time = ''10:00:00'', log_type = LogInfo, log_message = ''Starting Precision Diagnostics...''\<rparr>],
        isp = ''Loading...'', localStorage = [(''netdash_history'', ''+'')],
        progressTrace =
          [0, 5, 6, 7, 8, 9, 10, 11, 12, 13, 14, 5001 / 100, 80, 81, 82, 83, 84, 85, 86, 87, 88, 89, 90,
            91, 92, 93, 94, 95, 96, 97, 98, 99, 100, 100]\<rparr>)"
proof -
  let ?S2 = "\<lparr>testing = True, progress = 14,
       metrics = \<lparr>download = 0, upload = 0, ping = 21, jitter = 4, signalStrength = 0\<rparr>,
       history = [],
       logs = [\<lparr>log_time = ''10:00:00'', log_type = LogInfo, log_message = ''Starting Precision Diagnostics...''\<rparr>],
       isp = ''Loading...'', localStorage = [],
       progressTrace =
         [0, 5, 6, 7, 8, 9, 10, 11, 12, 13, 14]\<rparr>"
  let ?S3 = "\<lparr>testing = True, progress = 80,
       metrics = \<lparr>download = 79, upload = 0, ping = 21, jitter = 4, signalStrength = 0\<rparr>,
       history = [],
       logs = [\<lparr>log_time = ''10:00:00'', log_type = LogInfo, log_message = ''Starting Precision Diagnostics...''\<rparr>],
       isp = ''Loading...'', localStorage = [],
       progressTrace =
         [0, 5, 6, 7, 8, 9, 10, 11, 12, 13, 14, 5001 / 100, 80]\<rparr>"
  have nt: "\<not> testing initialApp"
    by (simp add: initialApp_def)
  have lat: "latencyPhase quietEnv (startState quietEnv initialApp) = (Inr (21, 4), ?S2)"
    by code_simp
  have dl: "downloadPhase quietEnv ?S2 = Some (Inr 79, ?S3)"
    by code_simp
  have up: "uploadPhase quietEnv 79 21 4 ?S3 =
      \<lparr>testing = False, progress = 100,
       metrics = \<lparr>download = 79, upload = 16, ping = 21, jitter = 4, signalStrength = 79\<rparr>,
       history = [\<lparr>res_id = 1700000000000, res_date = ''1/1/2024'', res_download = 79,
            res_upload = 16, res_ping = 21, res_isp = ''Loading...''\<rparr>],
       logs = [\<lparr>log_time = ''10:00:10'', log_type = LogSuccess, log_message = ''Test Complete: 79 Mbps''\<rparr>,
               \<lparr>log_time = ''10:00:00'', log_type = LogInfo, log_message = ''Starting Precision Diagnostics...''\<rparr>],
       isp = ''Loading...'', localStorage = [(''netdash_history'', ''+'')],
       progressTrace =
         [0, 5, 6, 7, 8, 9, 10, 11, 12, 13, 14, 5001 / 100, 80, 81, 82, 83, 84, 85, 86, 87, 88, 89, 90,
            91, 92, 93, 94, 95, 96, 97, 98, 99, 100, 100]\<rparr>"
    by code_simp
  show ?thesis
    unfolding runSpeedTest_def using nt by (simp add: lat dl up)
qed

lemma slowPing_run:
  "runSpeedTest slowPingEnv initialApp =
     Some (Completed,
       \<lparr>testing = False, progress = 100,
        metrics = \<lparr>download = 79, upload = 16, ping = 400, jitter = 0, signalStrength = 0\<rparr>,
        history = [\<lparr>res_id = 1700000000000, res_date = ''1/1/2024'', res_download = 79,
            res_upload = 16, res_ping = 400, res_isp = ''Loading...''\<rparr>],
        logs = [\<lparr>log_time = ''10:00:10'', log_type = LogSuccess, log_message = ''Test Complete: 79 Mbps''\<rparr>,
                \<lparr>log_time = ''10:00:00'', log_type = LogInfo, log_message = ''Starting Precision Diagnostics...''\<rparr>],
        isp = ''Loading...'', localStorage = [(''netdash_history'', ''+'')],
        progressTrace =
          [0, 5, 6, 7, 8, 9, 10, 11, 12, 13, 14, 5001 / 100, 80, 81, 82, 83, 84, 85, 86, 87, 88, 89, 90,
            91, 92, 93, 94, 95, 96, 97, 98, 99, 100, 100]\<rparr>)"
proof -
  let ?S2 = "\<lparr>testing = True, progress = 14,
       metrics = \<lparr>download = 0, upload = 0, ping = 400, jitter = 0, signalStrength = 0\<rparr>,
       history = [],
       logs = [\<lparr>log_time = ''10:00:00'', log_type = LogInfo, log_message = ''Starting Precision Diagnostics...''\<rparr>],
       isp = ''Loading...'', localStorage = [],
       progressTrace =
         [0, 5, 6, 7, 8, 9, 10, 11, 12, 13, 14]\<rparr>"
  let ?S3 = "\<lparr>testing = True, progress = 80,
       metrics = \<lparr>download = 79, upload = 0, ping = 400, jitter = 0, signalStrength = 0\<rparr>,
       history = [],
       logs = [\<lparr>log_time = ''10:00:00'', log_type = LogInfo, log_message = ''Starting Precision Diagnostics...''\<rparr>],
       isp = ''Loading...'', localStorage = [],
       progressTrace =
         [0, 5, 6, 7, 8, 9, 10, 11, 12, 13, 14, 5001 / 100, 80]\<rparr>"
  have nt: "\<not> testing initialApp"
    by (simp add: initialApp_def)
  have lat: "latencyPhase slowPingEnv (startState slowPingEnv initialApp) = (Inr (400, 0), ?S2)"
    by code_simp
  have dl: "downloadPhase slowPingEnv ?S2 = Some (Inr 79, ?S3)"
    by code_simp
  have up: "uploadPhase slowPingEnv 79 400 0 ?S3 =
      \<lparr>testing = False, progress = 100,
       metrics = \<lparr>download = 79, upload = 16, ping = 400, jitter = 0, signalStrength = 0\<rparr>,
       history = [\<lparr>res_id = 1700000000000, res_date = ''1/1/2024'', res_download = 79,
            res_upload = 16, res_ping = 400, res_isp = ''Loading...''\<rparr>],
       logs = [\<lparr>log_time = ''10:00:10'', log_type = LogSuccess, log_message = ''Test Complete: 79 Mbps''\<rparr>,
               \<lparr>log_time = ''10:00:00'', log_type = LogInfo, log_message = ''Starting Precision Diagnostics...''\<rparr>],
       isp = ''Loading...'', localStorage = [(''netdash_history'', ''+'')],
       progressTrace =
         [0, 5, 6, 7, 8, 9, 10, 11, 12, 13, 14, 5001 / 100, 80, 81, 82, 83, 84, 85, 86, 87, 88, 89, 90,
            91, 92, 93, 94, 95, 96, 97, 98, 99, 100, 100]\<rparr>"
    by code_simp
  show ?thesis
    unfolding runSpeedTest_def using nt by (simp add: lat dl up)
qed

lemma fiber_run:
  "runSpeedTest fiberEnv initialApp =
     Some (Completed,
       \<lparr>testing = False, progress = 100,
        metrics = \<lparr>download = 79, upload = 63, ping = 21, jitter = 4, signalStrength = 79\<rparr>,
        history = [\<lparr>res_id = 1700000000000, res_date = ''1/1/2024'', res_download = 79,
            res_upload = 63, res_ping = 21, res_isp = ''Loading...''\<rparr>],
        logs = [\<lparr>log_time = ''10:00:10'', log_type = LogSuccess, log_message = ''Test Complete: 79 Mbps''\<rparr>,
                \<lparr>log_time = ''10:00:00'', log_type = LogInfo, log_message = ''Starting Precision Diagnostics...''\<rparr>],
        isp = ''Loading...'', localStorage = [(''netdash_history'', ''+'')],
        progressTrace =
          [0, 5, 6, 7, 8, 9, 10, 11, 12, 13, 14, 5001 / 100, 80, 81, 82, 83, 84, 85, 86, 87, 88, 89, 90,
            91, 92, 93, 94, 95, 96, 97, 98, 99, 100, 100]\<rparr>)"
proof -
  let ?S2 = "\<lparr>testing = True, progress = 14,
       metrics = \<lparr>download = 0, upload = 0, ping = 21, jitter = 4, signalStrength = 0\<rparr>,
       history = [],
       logs = [\<lparr>log_time = ''10:00:00'', log_type = LogInfo, log_message = ''Starting Precision Diagnostics...''\<rparr>],
       isp = ''Loading...'', localStorage = [],
       progressTrace =
         [0, 5, 6, 7, 8, 9, 10, 11, 12, 13, 14]\<rparr>"
  let ?S3 = "\<lparr>testing = True, progress = 80,
       metrics = \<lparr>download = 79, upload = 0, ping = 21, jitter = 4, signalStrength = 0\<rparr>,
       history = [],
       logs = [\<lparr>log_time = ''10:00:00'', log_type = LogInfo, log_message = ''Starting Precision Diagnostics...''\<rparr>],
       isp = ''Loading...'', localStorage = [],
       progressTrace =
         [0, 5, 6, 7, 8, 9, 10, 11, 12, 13, 14, 5001 / 100, 80]\<rparr>"
  have nt: "\<not> testing initialApp"
    by (simp add: initialApp_def)
  have lat: "latencyPhase fiberEnv (startState fiberEnv initialApp) = (Inr (21, 4), ?S2)"
    by code_simp
  have dl: "downloadPhase fiberEnv ?S2 = Some (Inr 79, ?S3)"
    by code_simp
  have up: "uploadPhase fiberEnv 79 21 4 ?S3 =
      \<lparr>testing = False, progress = 100,
       metrics = \<lparr>download = 79, upload = 63, ping = 21, jitter = 4, signalStrength = 79\<rparr>,
       history = [\<lparr>res_id = 1700000000000, res_date = ''1/1/2024'', res_download = 79,
            res_upload = 63, res_ping = 21, res_isp = ''Loading...''\<rparr>],
       logs = [\<lparr>log_time = ''10:00:10'', log_type = LogSuccess, log_message = ''Test Complete: 79 Mbps''\<rparr>,
               \<lparr>log_time = ''10:00:00'', log_type = LogInfo, log_message = ''Starting Precision Diagnostics...''\<rparr>],
       isp = ''Loading...'', localStorage = [(''netdash_history'', ''+'')],
       progressTrace =
         [0, 5, 6, 7, 8, 9, 10, 11, 12, 13, 14, 5001 / 100, 80, 81, 82, 83, 84, 85, 86, 87, 88, 89, 90,
            91, 92, 93, 94, 95, 96, 97, 98, 99, 100, 100]\<rparr>"
    by code_simp
  show ?thesis
    unfolding runSpeedTest_def using nt by (simp add: lat dl up)
qed

lemma slowLink_run:
  "runSpeedTest slowLinkEnv initialApp =
     Some (Completed,
       \<lparr>testing = False, progress = 100,
        metrics = \<lparr>download = 12, upload = 2, ping = 21, jitter = 4, signalStrength = 79\<rparr>,
        history = [\<lparr>res_id = 1700000000000, res_date = ''1/1/2024'', res_download = 12,
            res_upload = 2, res_ping = 21, res_isp = ''Loading...''\<rparr>],
        logs = [\<lparr>log_time = ''10:00:10'', log_type = LogSuccess, log_message = ''Test Complete: 12 Mbps''\<rparr>,
                \<lparr>log_time = ''10:00:00'', log_type = LogInfo, log_message = ''Starting Precision Diagnostics...''\<rparr>],
        isp = ''Loading...'', localStorage = [(''netdash_history'', ''+'')],
        progressTrace =
          [0, 5, 6, 7, 8, 9, 10, 11, 12, 13, 14, 80, 81, 82, 83, 84, 85, 86, 87, 88, 89, 90,
            91, 92, 93, 94, 95, 96, 97, 98, 99, 100, 100]\<rparr>)"
proof -
  let ?S2 = "\<lparr>testing = True, progress = 14,
       metrics = \<lparr>download = 0, upload = 0, ping = 21, jitter = 4, signalStrength = 0\<rparr>,
       history = [],
       logs = [\<lparr>log_time = ''10:00:00'', log_type = LogInfo, log_message = ''Starting Precision Diagnostics...''\<rparr>],
       isp = ''Loading...'', localStorage = [],
       progressTrace =
         [0, 5, 6, 7, 8, 9, 10, 11, 12, 13, 14]\<rparr>"
  let ?S3 = "\<lparr>testing = True, progress = 80,
       metrics = \<lparr>download = 12, upload = 0, ping = 21, jitter = 4, signalStrength = 0\<rparr>,
       history = [],
       logs = [\<lparr>log_time = ''10:00:00'', log_type = LogInfo, log_message = ''Starting Precision Diagnostics...''\<rparr>],
       isp = ''Loading...'', localStorage = [],
       progressTrace =
         [0, 5, 6, 7, 8, 9, 10, 11, 12, 13, 14, 80]\<rparr>"
  have nt: "\<not> testing initialApp"
    by (simp add: initialApp_def)
  have lat: "latencyPhase slowLinkEnv (startState slowLinkEnv initialApp) = (Inr (21, 4), ?S2)"
    by code_simp
  have dl: "downloadPhase slowLinkEnv ?S2 = Some (Inr 12, ?S3)"
    by code_simp
  have up: "uploadPhase slowLinkEnv 12 21 4 ?S3 =
      \<lparr>testing = False, progress = 100,
       metrics = \<lparr>download = 12, upload = 2, ping = 21, jitter = 4, signalStrength = 79\<rparr>,
       history = [\<lparr>res_id = 1700000000000, res_date = ''1/1/2024'', res_download = 12,
            res_upload = 2, res_ping = 21, res_isp = ''Loading...''\<rparr>],
       logs = [\<lparr>log_time = ''10:00:10'', log_type = LogSuccess, log_message = ''Test Complete: 12 Mbps''\<rparr>,
               \<lparr>log_time = ''10:00:00'', log_type = LogInfo, log_message = ''Starting Precision Diagnostics...''\<rparr>],
       isp = ''Loading...'', localStorage = [(''netdash_history'', ''+'')],
       progressTrace =
         [0, 5, 6, 7, 8, 9, 10, 11, 12, 13, 14, 80, 81, 82, 83, 84, 85, 86, 87, 88, 89, 90,
            91, 92, 93, 94, 95, 96, 97, 98, 99, 100, 100]\<rparr>"
    by code_simp
  show ?thesis
    unfolding runSpeedTest_def using nt by (simp add: lat dl up)
qed

lemma batchFail_run:
  "runSpeedTest batchFailEnv initialApp =
     Some (Failed,
       \<lparr>testing = False, progress = 5001 / 100,
        metrics = \<lparr>download = 80, upload = 0, ping = 21, jitter = 4, signalStrength = 0\<rparr>,
        history = [],
        logs = [\<lparr>log_time = ''10:00:10'', log_type = LogError, log_message = ''Speed test failed (CORS/Network Error)''\<rparr>,
                \<lparr>log_time = ''10:00:00'', log_type = LogInfo, log_message = ''Starting Precision Diagnostics...''\<rparr>],
        isp = ''Loading...'', localStorage = [],
        progressTrace =
          [0, 5, 6, 7, 8, 9, 10, 11, 12, 13, 14, 5001 / 100]\<rparr>)"
proof -
  let ?S2 = "\<lparr>testing = True, progress = 14,
       metrics = \<lparr>download = 0, upload = 0, ping = 21, jitter = 4, signalStrength = 0\<rparr>,
       history = [],
       logs = [\<lparr>log_time = ''10:00:00'', log_type = LogInfo, log_message = ''Starting Precision Diagnostics...''\<rparr>],
       isp = ''Loading...'', localStorage = [],
       progressTrace =
         [0, 5, 6, 7, 8, 9, 10, 11, 12, 13, 14]\<rparr>"
  let ?S3 = "\<lparr>testing = True, progress = 5001 / 100,
       metrics = \<lparr>download = 80, upload = 0, ping = 21, jitter = 4, signalStrength = 0\<rparr>,
       history = [],
       logs = [\<lparr>log_time = ''10:00:00'', log_type = LogInfo, log_message = ''Starting Precision Diagnostics...''\<rparr>],
       isp = ''Loading...'', localStorage = [],
       progressTrace =
         [0, 5, 6, 7, 8, 9, 10, 11, 12, 13, 14, 5001 / 100]\<rparr>"
  have nt: "\<not> testing initialApp"
    by (simp add: initialApp_def)
  have lat: "latencyPhase batchFailEnv (startState batchFailEnv initialApp) = (Inr (21, 4), ?S2)"
    by code_simp
  have dl: "downloadPhase batchFailEnv ?S2 = Some (Inl FetchRejected, ?S3)"
    by code_simp
  have c: "catchBlock batchFailEnv ?S3 =
      \<lparr>testing = False, progress = 5001 / 100,
       metrics = \<lparr>download = 80, upload = 0, ping = 21, jitter = 4, signalStrength = 0\<rparr>,
       history = [],
       logs = [\<lparr>log_time = ''10:00:10'', log_type = LogError, log_message = ''Speed test failed (CORS/Network Error)''\<rparr>,
               \<lparr>log_time = ''10:00:00'', log_type = LogInfo, log_message = ''Starting Precision Diagnostics...''\<rparr>],
       isp = ''Loading...'', localStorage = [],
       progressTrace =
         [0, 5, 6, 7, 8, 9, 10, 11, 12, 13, 14, 5001 / 100]\<rparr>"
    by code_simp
  show ?thesis
    unfolding runSpeedTest_def using nt by (simp add: lat dl c)
qed

lemma quiet_run_v30:
  "runSpeedTest_v30 quietEnv initialApp =
     (Completed,
      \<lparr>testing = False, progress = 100,
     metrics = \<lparr>download = 19, upload = 6, ping = 21, jitter = 4, signalStrength = 79\<rparr>,
     history = [\<lparr>res_id = 1700000000000, res_date = ''1/1/2024'', res_download = 19,
            res_upload = 6, res_ping = 21, res_isp = ''Loading...''\<rparr>],
     logs = [\<lparr>log_time = ''10:00:10'', log_type = LogSuccess, log_message = ''Test Complete: 19 Mbps''\<rparr>,
             \<lparr>log_time = ''10:00:00'', log_type = LogInfo, log_message = ''Starting Diagnostics...''\<rparr>],
     isp = ''Loading...'', localStorage = [(''netdash_history'', ''+'')],
     progressTrace =
       [0, 10, 12, 14, 16, 18, 19, 20, 21, 22, 23, 24, 25, 26, 27, 28, 29, 30,
            31, 32, 33, 34, 35, 36, 37, 38, 100]\<rparr>)"
proof -
  let ?S2 = "\<lparr>testing = True, progress = 18,
       metrics = \<lparr>download = 0, upload = 0, ping = 21, jitter = 4, signalStrength = 0\<rparr>,
       history = [],
       logs = [\<lparr>log_time = ''10:00:00'', log_type = LogInfo, log_message = ''Starting Diagnostics...''\<rparr>],
       isp = ''Loading...'', localStorage = [],
       progressTrace =
         [0, 10, 12, 14, 16, 18]\<rparr>"
  have nt: "\<not> testing initialApp"
    by (simp add: initialApp_def)
  have lat: "latencyPhase_v30 quietEnv (startState_v30 quietEnv initialApp) = (Inr (21, 4), ?S2)"
    by code_simp
  have img: "imageFetch quietEnv = Some 2000" and speed: "speedMbps_v30 2000 = 19"
    by code_simp+
  have fin: "finishPhase_v30 quietEnv 19 21 4 ?S2 =
      \<lparr>testing = False, progress = 100,
       metrics = \<lparr>download = 19, upload = 6, ping = 21, jitter = 4, signalStrength = 79\<rparr>,
       history = [\<lparr>res_id = 1700000000000, res_date = ''1/1/2024'', res_download = 19,
            res_upload = 6, res_ping = 21, res_isp = ''Loading...''\<rparr>],
       logs = [\<lparr>log_time = ''10:00:10'', log_type = LogSuccess, log_message = ''Test Complete: 19 Mbps''\<rparr>,
               \<lparr>log_time = ''10:00:00'', log_type = LogInfo, log_message = ''Starting Diagnostics...''\<rparr>],
       isp = ''Loading...'', localStorage = [(''netdash_history'', ''+'')],
       progressTrace =
         [0, 10, 12, 14, 16, 18, 19, 20, 21, 22, 23, 24, 25, 26, 27, 28, 29, 30,
            31, 32, 33, 34, 35, 36, 37, 38, 100]\<rparr>"
    by code_simp
  show ?thesis
    unfolding runSpeedTest_v30_def using nt by (simp add: lat img speed fin)
qed

lemma cellular_run_v30:
  "runSpeedTest_v30 cellularEnv initialApp =
     (Completed,
      \<lparr>testing = False, progress = 100,
     metrics = \<lparr>download = 19, upload = 2, ping = 21, jitter = 4, signalStrength = 79\<rparr>,
     history = [\<lparr>res_id = 1700000000000, res_date = ''1/1/2024'', res_download = 19,
            res_upload = 2, res_ping = 21, res_isp = ''Loading...''\<rparr>],
     logs = [\<lparr>log_time = ''10:00:10'', log_type = LogSuccess, log_message = ''Test Complete: 19 Mbps''\<rparr>,
             \<lparr>log_time = ''10:00:00'', log_type = LogInfo, log_message = ''Starting Diagnostics...''\<rparr>],
     isp = ''Loading...'', localStorage = [(''netdash_history'', ''+'')],
     progressTrace =
       [0, 10, 12, 14, 16, 18, 19, 20, 21, 22, 23, 24, 25, 26, 27, 28, 29, 30,
            31, 32, 33, 34, 35, 36, 37, 38, 100]\<rparr>)"
proof -
  let ?S2 = "\<lparr>testing = True, progress = 18,
       metrics = \<lparr>download = 0, upload = 0, ping = 21, jitter = 4, signalStrength = 0\<rparr>,
       history = [],
       logs = [\<lparr>log_time = ''10:00:00'', log_type = LogInfo, log_message = ''Starting Diagnostics...''\<rparr>],
       isp = ''Loading...'', localStorage = [],
       progressTrace =
         [0, 10, 12, 14, 16, 18]\<rparr>"
  have nt: "\<not> testing initialApp"
    by (simp add: initialApp_def)
  have lat: "latencyPhase_v30 cellularEnv (startState_v30 cellularEnv initialApp) = (Inr (21, 4), ?S2)"
    by code_simp
  have img: "imageFetch cellularEnv = Some 2000" and speed: "speedMbps_v30 2000 = 19"
    by code_simp+
  have fin: "finishPhase_v30 cellularEnv 19 21 4 ?S2 =
      \<lparr>testing = False, progress = 100,
       metrics = \<lparr>download = 19, upload = 2, ping = 21, jitter = 4, signalStrength = 79\<rparr>,
       history = [\<lparr>res_id = 1700000000000, res_date = ''1/1/2024'', res_download = 19,
            res_upload = 2, res_ping = 21, res_isp = ''Loading...''\<rparr>],
       logs = [\<lparr>log_time = ''10:00:10'', log_type = LogSuccess, log_message = ''Test Complete: 19 Mbps''\<rparr>,
               \<lparr>log_time = ''10:00:00'', log_type = LogInfo, log_message = ''Starting Diagnostics...''\<rparr>],
       isp = ''Loading...'', localStorage = [(''netdash_history'', ''+'')],
       progressTrace =
         [0, 10, 12, 14, 16, 18, 19, 20, 21, 22, 23, 24, 25, 26, 27, 28, 29, 30,
            31, 32, 33, 34, 35, 36, 37, 38, 100]\<rparr>"
    by code_simp
  show ?thesis
    unfolding runSpeedTest_v30_def using nt by (simp add: lat img speed fin)
qed

section \<open>Progress\<close>

text \<open>
  Claim C3, as the code has it. In every run of v3.5.0 that is not ignored, under a
  monotonic clock, the values passed to \<open>setProgress\<close> start with 0 and never
  decrease. A run that completes ends with progress exactly 100 and \<open>testing\<close> false. A
  run that fails inside the \<open>try\<close> ends with \<open>testing\<close> false and progress left at the
  last value published, which is at most 80: the \<open>catch\<close> block does not touch it.
\<close>

theorem progress_within_a_run:
  assumes "runSpeedTest e st = Some (res, st')" and "res \<noteq> Ignored"
    and "monotoneClock (iterations e)"
  shows "\<exists>tr. progressTrace st' = progressTrace st @ 0 # tr \<and> sorted (0 # tr) \<and>
           progress st' = last (0 # tr) \<and>
           (res = Completed \<longrightarrow> progress st' = 100 \<and> \<not> testing st') \<and>
           (res = Failed \<longrightarrow> progress st' \<le> 80 \<and> \<not> testing st')"
proof -
  from assms(1,2) have nt: "\<not> testing st"
    by (auto simp add: runSpeedTest_def)
  obtain lr st2 where lat: "latencyPhase e (startState e st) = (lr, st2)"
    by (cases "latencyPhase e (startState e st)")
  show ?thesis
  proof (cases lr)
    case (Inl x)
    with assms(1) nt lat have res: "res = Raised x" "st' = st2"
      by (simp_all add: runSpeedTest_def)
    obtain pr st3 where pl: "pingLoop (pingProbe e) (\<lambda>i. 5 + of_nat i) [0..<10] [] (startState e st) = (pr, st3)"
      by (cases "pingLoop (pingProbe e) (\<lambda>i. 5 + of_nat i) [0..<10] [] (startState e st)")
    with lat Inl have "st3 = st2"
      by (auto simp add: latencyPhase_def split: sum.splits)
    with pingLoop_trace [OF pl] obtain k where
      "progressTrace st' = progressTrace st @ 0 # map (\<lambda>i. 5 + rat_of_nat i) (take k [0..<10])"
      "progress st' = last (0 # map (\<lambda>i. 5 + rat_of_nat i) (take k [0..<10]))"
      using res by (auto simp add: startState_simps)
    with sorted_ping_progress [of k] res show ?thesis
      by (intro exI [of _ "map (\<lambda>i. 5 + rat_of_nat i) (take k [0..<10])"]) simp
  next
    case (Inr stats)
    obtain avgPing jit where stats: "stats = (avgPing, jit)" by (cases stats)
    from latencyPhase_Inr [OF lat [unfolded Inr stats]]
    have tr2: "progressTrace st2 = progressTrace st @ [0, 5, 6, 7, 8, 9, 10, 11, 12, 13, 14]"
      and p2: "progress st2 = 14"
      by (auto simp add: startState_simps)
    from assms(1) nt lat Inr stats obtain dr st3 where dl: "downloadPhase e st2 = Some (dr, st3)"
      by (cases "downloadPhase e st2") (auto simp add: runSpeedTest_def)
    from downloadPhase_effect [OF dl assms(3)] obtain tr where
      tr: "progressTrace st3 = progressTrace st2 @ tr" "sorted tr" "\<forall>p \<in> set tr. 20 \<le> p \<and> p \<le> 80"
      "progress st3 = last (progress st2 # tr)"
      by blast
    have p3: "14 \<le> progress st3" "progress st3 \<le> 80" and below: "\<forall>p \<in> set tr. p \<le> progress st3"
      using tr(2,3,4) p2 by (cases tr rule: rev_cases; auto simp add: sorted_append)+
    have srt3: "sorted (0 # [5, 6, 7, 8, 9, 10, 11, 12, 13, 14] @ tr)"
      using tr(2,3) by (auto simp add: sorted_append)
    show ?thesis
    proof (cases dr)
      case (Inl x)
      with assms(1) nt lat \<open>lr = Inr stats\<close> stats dl have res: "res = Failed" "st' = catchBlock e st3"
        by (simp_all add: runSpeedTest_def)
      show ?thesis
        using res tr(1,4) tr2 p2 p3 srt3
        by (intro exI [of _ "[5, 6, 7, 8, 9, 10, 11, 12, 13, 14] @ tr"]) (simp add: catchBlock_simps)
    next
      case fs: (Inr finalSpeed)
      with assms(1) nt lat Inr stats dl have res: "res = Completed"
        "st' = uploadPhase e finalSpeed avgPing jit st3"
        by (simp_all add: runSpeedTest_def)
      from p3 have "progress st3 \<le> 100" by simp
      from uploadPhase_effect [OF this, of e finalSpeed avgPing jit] obtain tr' where
        up: "progressTrace st' = progressTrace st3 @ tr' @ [100]" "sorted tr'"
        "\<forall>p \<in> set tr'. progress st3 \<le> p \<and> p \<le> 100" "progress st' = 100" "\<not> testing st'"
        unfolding res(2) by blast
      have "sorted (0 # ([5, 6, 7, 8, 9, 10, 11, 12, 13, 14] @ tr) @ tr' @ [100])"
        using srt3 up(2,3) below p3 tr(3) by (fastforce simp add: sorted_append)
      then show ?thesis
        using res(1) up(1,4,5) tr(1) tr2
        by (intro exI [of _ "[5, 6, 7, 8, 9, 10, 11, 12, 13, 14] @ tr @ tr' @ [100]"]) simp
    qed
  qed
qed

theorem progress_within_a_run_witness:
  "(\<exists>st'. runSpeedTest quietEnv initialApp = Some (Completed, st') \<and>
      progressTrace st' =
        [0, 5, 6, 7, 8, 9, 10, 11, 12, 13, 14, 5001 / 100, 80, 81, 82, 83, 84, 85, 86, 87, 88,
         89, 90, 91, 92, 93, 94, 95, 96, 97, 98, 99, 100, 100] \<and>
      sorted (progressTrace st') \<and> progress st' = 100 \<and> \<not> testing st') \<and>
   (\<exists>st'. runSpeedTest batchFailEnv initialApp = Some (Failed, st') \<and>
      progressTrace st' = [0, 5, 6, 7, 8, 9, 10, 11, 12, 13, 14, 5001 / 100] \<and>
      sorted (progressTrace st') \<and> progress st' \<le> 80 \<and> \<not> testing st')"
proof -
  have mc1: "monotoneClock (iterations quietEnv)" and mc2: "monotoneClock (iterations batchFailEnv)"
    by code_simp+
  have empty: "progressTrace initialApp = []"
    by (simp add: initialApp_def)
  from progress_within_a_run [OF quiet_run _ mc1] progress_within_a_run [OF batchFail_run _ mc2]
  show ?thesis
    by (simp add: quiet_run batchFail_run empty)
qed

text \<open>
  The claim as the specification words it fails on failure. When the second download
  batch rejects, the run ends in the \<open>catch\<close> block with \<open>testing\<close> false and progress
  50.01, not 100.
\<close>

theorem progress_not_forced_on_failure_counterexample:
  "map_option fst (runSpeedTest batchFailEnv initialApp) = Some Failed \<and>
   map_option (testing \<circ> snd) (runSpeedTest batchFailEnv initialApp) = Some False \<and>
   map_option (progress \<circ> snd) (runSpeedTest batchFailEnv initialApp) = Some (5001 / 100) \<and>
   map_option (progress \<circ> snd) (runSpeedTest batchFailEnv initialApp) \<noteq> Some 100"
  by (simp add: batchFail_run)

section \<open>Failures of a probe\<close>

text \<open>
  Claim C2 at a failing input. When the fourth latency probe rejects, the exception
  leaves \<open>runSpeedTest\<close> (the returned promise rejects), in v3.5.0 and in v3.0.0: the
  latency loop stands before the \<open>try\<close>. No error entry is added to the log, and
  \<open>testing\<close> stays true.
\<close>

theorem latency_failure_escapes:
  "runSpeedTest pingFailEnv initialApp =
     Some (Raised FetchRejected,
       \<lparr>testing = True, progress = 7,
        metrics = \<lparr>download = 0, upload = 0, ping = 0, jitter = 0, signalStrength = 0\<rparr>,
        history = [],
        logs = [\<lparr>log_time = ''10:00:00'', log_type = LogInfo, log_message = ''Starting Precision Diagnostics...''\<rparr>],
        isp = ''Loading...'', localStorage = [],
        progressTrace =
          [0, 5, 6, 7]\<rparr>) \<and>
   runSpeedTest_v30 pingFailEnv initialApp =
     (Raised FetchRejected,
      \<lparr>testing = True, progress = 14,
     metrics = \<lparr>download = 0, upload = 0, ping = 0, jitter = 0, signalStrength = 0\<rparr>,
     history = [],
     logs = [\<lparr>log_time = ''10:00:00'', log_type = LogInfo, log_message = ''Starting Diagnostics...''\<rparr>],
     isp = ''Loading...'', localStorage = [],
     progressTrace =
       [0, 10, 12, 14]\<rparr>)"
proof -
  have nt: "\<not> testing initialApp"
    by (simp add: initialApp_def)
  have lat: "latencyPhase pingFailEnv (startState pingFailEnv initialApp) =
    (Inl FetchRejected,
      \<lparr>testing = True, progress = 7,
       metrics = \<lparr>download = 0, upload = 0, ping = 0, jitter = 0, signalStrength = 0\<rparr>,
       history = [],
       logs = [\<lparr>log_time = ''10:00:00'', log_type = LogInfo, log_message = ''Starting Precision Diagnostics...''\<rparr>],
       isp = ''Loading...'', localStorage = [],
       progressTrace =
         [0, 5, 6, 7]\<rparr>)"
    by code_simp
  have lat30: "latencyPhase_v30 pingFailEnv (startState_v30 pingFailEnv initialApp) =
    (Inl FetchRejected,
      \<lparr>testing = True, progress = 14,
       metrics = \<lparr>download = 0, upload = 0, ping = 0, jitter = 0, signalStrength = 0\<rparr>,
       history = [],
       logs = [\<lparr>log_time = ''10:00:00'', log_type = LogInfo, log_message = ''Starting Diagnostics...''\<rparr>],
       isp = ''Loading...'', localStorage = [],
       progressTrace =
         [0, 10, 12, 14]\<rparr>)"
    by code_simp
  show ?thesis
    unfolding runSpeedTest_def runSpeedTest_v30_def using nt by (simp add: lat lat30)
qed

section \<open>Latency statistics\<close>















lemma uploadPhase_metrics:
  "metrics (uploadPhase e finalSpeed avgPing jit st) =
     \<lparr>download = finalSpeed, upload = simulatedUpload (connection e) finalSpeed,
      ping = avgPing, jitter = jit, signalStrength = max 0 (100 - avgPing)\<rparr>"
  by (simp add: uploadPhase_def Let_def setters saveResult_def split: prod.splits)






section \<open>Display ramp\<close>


lemma intervalTicks_positive:
  assumes "0 < T" and getput: "\<forall>v m. get (put v m) = v"
  shows "case (intervalTick put cap T (T / 20) ^^ n) (\<lparr>current = 0, active = True\<rparr>, st) of
     (r, st') \<Rightarrow>
       (n < 20 \<longrightarrow> active r \<and> current r = of_nat n * (T / 20)) \<and>
       (20 \<le> n \<longrightarrow> \<not> active r) \<and>
       (0 < n \<longrightarrow> get (metrics st') = (if n < 20 then Math_round (of_nat n * (T / 20)) else T))"
proof (induction n)
  case 0
  then show ?case by simp
next
  case (Suc n)
  obtain r1 st1 where mid:
    "(intervalTick put cap T (T / 20) ^^ n) (\<lparr>current = 0, active = True\<rparr>, st) = (r1, st1)"
    by (cases "(intervalTick put cap T (T / 20) ^^ n) (\<lparr>current = 0, active = True\<rparr>, st)")
  with Suc have ih: "n < 20 \<longrightarrow> active r1 \<and> current r1 = of_nat n * (T / 20)"
    "20 \<le> n \<longrightarrow> \<not> active r1"
    "0 < n \<longrightarrow> get (metrics st1) = (if n < 20 then Math_round (of_nat n * (T / 20)) else T)"
    by simp_all
  define X where "X = of_nat (Suc n) * (T / 20)"
  have step: "(intervalTick put cap T (T / 20) ^^ Suc n) (\<lparr>current = 0, active = True\<rparr>, st) =
      intervalTick put cap T (T / 20) (r1, st1)"
    by (simp add: mid)
  consider "Suc n < 20" | "Suc n = 20" | "20 \<le> n"
    by linarith
  then show ?case
  proof cases
    case 1
    with ih(1) have act: "active r1" and cur: "current r1 + T / 20 = X"
      by (simp_all add: X_def algebra_simps)
    have "X < T"
      using 1 assms(1) by (simp add: X_def field_simps)
    then have "intervalTick put cap T (T / 20) (r1, st1) =
        (\<lparr>current = X, active = True\<rparr>,
         setProgress (min (progress st1 + 1) cap) (setMetrics (put (Math_round X)) st1))"
      using act cur by (simp add: intervalTick_cases)
    with 1 show ?thesis
      unfolding step by (simp add: setters getput X_def)
  next
    case 2
    with ih(1) have act: "active r1" and cur: "current r1 + T / 20 = X"
      by (simp_all add: X_def algebra_simps)
    have "X = T"
      using 2 by (simp add: X_def)
    then have "intervalTick put cap T (T / 20) (r1, st1) =
        (\<lparr>current = X, active = False\<rparr>,
         setProgress (min (progress st1 + 1) cap) (setMetrics (put T) st1))"
      using act cur by (simp add: intervalTick_cases)
    with 2 show ?thesis
      unfolding step by (simp add: setters getput)
  next
    case 3
    with ih(2,3) show ?thesis
      unfolding step by (simp add: intervalTick_cases)
  qed
qed

lemma intervalTicks_nonpositive:
  assumes "T \<le> 0" and getput: "\<forall>v m. get (put v m) = v" and "0 < n"
  shows "case (intervalTick put cap T (T / 20) ^^ n) (\<lparr>current = 0, active = True\<rparr>, st) of
     (r, st') \<Rightarrow> \<not> active r \<and> get (metrics st') = T"
  using assms(3)
proof (induction n)
  case 0
  then show ?case by simp
next
  case (Suc n)
  show ?case
  proof (cases n)
    case 0
    have "T \<le> T / 20"
      using assms(1) by (simp add: field_simps)
    then show ?thesis
      using 0 by (simp add: intervalTick_cases getput setters)
  next
    case (Suc k)
    obtain r1 st1 where mid:
      "(intervalTick put cap T (T / 20) ^^ n) (\<lparr>current = 0, active = True\<rparr>, st) = (r1, st1)"
      by (cases "(intervalTick put cap T (T / 20) ^^ n) (\<lparr>current = 0, active = True\<rparr>, st)")
    with Suc.IH Suc have "\<not> active r1 \<and> get (metrics st1) = T"
      by simp
    then show ?thesis
      by (simp add: mid intervalTick_cases)
  qed
qed

lemma intervalTicks_stop:
  assumes getput: "\<forall>v m. get (put v m) = v" and n20: "20 \<le> n"
  shows "case (intervalTick put cap T (T / 20) ^^ n) (\<lparr>current = 0, active = True\<rparr>, st) of
     (r, st') \<Rightarrow> \<not> active r \<and> get (metrics st') = T"
proof (cases "0 < T")
  case True
  from intervalTicks_positive [where put = put and get = get and cap = cap and n = n and st = st, OF True getput] n20 show ?thesis
    by (auto split: prod.splits)
next
  case False
  then have "T \<le> 0" by simp
  from intervalTicks_nonpositive [where put = put and get = get and cap = cap and n = n and st = st, OF this getput] n20 show ?thesis
    by simp
qed







section \<open>Upload estimate\<close>

lemma intervalTick_ramp_only:
  "fst (intervalTick put cap T s (r, st)) = fst (intervalTick put cap T s (r, other))"
  by (simp add: intervalTick_cases)

lemma intervalTicks_ramp_only:
  "fst ((intervalTick put cap T s ^^ n) (r, st)) = fst ((intervalTick put cap T s ^^ n) (r, other))"
proof (induction n)
  case 0
  then show ?case by simp
next
  case (Suc n)
  obtain r1 s1 where a: "(intervalTick put cap T s ^^ n) (r, st) = (r1, s1)"
    by (cases "(intervalTick put cap T s ^^ n) (r, st)")
  obtain r2 so where b: "(intervalTick put cap T s ^^ n) (r, other) = (r2, so)"
    by (cases "(intervalTick put cap T s ^^ n) (r, other)")
  from Suc a b have "r1 = r2" by simp
  then show ?case
    using intervalTick_ramp_only [of put cap T s r2 s1 so] by (simp add: a b)
qed

lemma intervalTicks_late:
  assumes getput: "\<forall>v m. get (put v m) = v" and "\<not> active r \<longrightarrow> get (metrics st) = T"
  shows "case (intervalTick put cap T s ^^ n) (r, st) of
           (r', st') \<Rightarrow> \<not> active r' \<longrightarrow> get (metrics st') = T"
proof (induction n)
  case 0
  with assms(2) show ?case by simp
next
  case (Suc n)
  obtain r1 s1 where a: "(intervalTick put cap T s ^^ n) (r, st) = (r1, s1)"
    by (cases "(intervalTick put cap T s ^^ n) (r, st)")
  with Suc have "\<not> active r1 \<longrightarrow> get (metrics s1) = T" by simp
  then show ?case
    by (simp add: a intervalTick_cases getput setters)
qed

lemma intervalTicks_other_fields:
  assumes "\<forall>v m. f (put v m) = f m"
  shows "f (metrics (snd ((intervalTick put cap T s ^^ n) (r, st)))) = f (metrics st)"
proof (induction n)
  case 0
  then show ?case by simp
next
  case (Suc n)
  obtain r1 s1 where a: "(intervalTick put cap T s ^^ n) (r, st) = (r1, s1)"
    by (cases "(intervalTick put cap T s ^^ n) (r, st)")
  with Suc have "f (metrics s1) = f (metrics st)" by simp
  then show ?case
    by (simp add: a intervalTick_cases assms setters)
qed

lemma finishPhase_v30_metrics:
  "download (metrics (finishPhase_v30 e speedMbps avgPing jit st)) = speedMbps \<and>
   upload (metrics (finishPhase_v30 e speedMbps avgPing jit st)) =
     simulatedUpload_v30 (connection e) speedMbps \<and>
   ping (metrics (finishPhase_v30 e speedMbps avgPing jit st)) = avgPing \<and>
   jitter (metrics (finishPhase_v30 e speedMbps avgPing jit st)) = jit"
proof -
  let ?tick = "intervalTick (\<lambda>v prev. prev\<lparr>download := v\<rparr>) 60 speedMbps (speedMbps / 20)"
  let ?r0 = "\<lparr>current = 0, active = True\<rparr>"
  let ?final = "\<lparr>download = speedMbps, upload = simulatedUpload_v30 (connection e) speedMbps,
    ping = avgPing, jitter = jit, signalStrength = max 0 (100 - avgPing)\<rparr>"
  have down: "\<forall>v m. download (m\<lparr>download := v\<rparr>) = v"
    by simp
  obtain r st1 where first: "(?tick ^^ ticks e) (?r0, st) = (r, st1)"
    by (cases "(?tick ^^ ticks e) (?r0, st)")
  define stT where "stT =
    addLog LogSuccess (''Test Complete: '' @ numberToString e speedMbps @ '' Mbps'') (endTime e)
      (saveResult (JSON_stringify e) ?final (endNow e) (endDate e)
        (setMetrics (\<lambda>prev. ?final)
          (setTesting False (setProgress 100
            (setMetrics (\<lambda>prev. prev\<lparr>upload := simulatedUpload_v30 (connection e) speedMbps,
               download := speedMbps\<rparr>) st1)))))"
  have mT: "metrics stT = ?final"
    by (simp add: stT_def setters saveResult_def Let_def)
  obtain r' st' where late: "(?tick ^^ 20) (r, stT) = (r', st')"
    by (cases "(?tick ^^ 20) (r, stT)")
  have fin: "finishPhase_v30 e speedMbps avgPing jit st = st'"
    using first late by (simp add: finishPhase_v30_def ramp_v30_def Let_def stT_def)
  have "r' = fst ((?tick ^^ 20) (r, st1))"
    using intervalTicks_ramp_only [where n = 20 and r = r and st = stT and other = st1
        and put = "\<lambda>v prev. prev\<lparr>download := v\<rparr>" and cap = 60 and T = speedMbps
        and s = "speedMbps / 20"] late
    by simp
  also have "\<dots> = fst ((?tick ^^ (20 + ticks e)) (?r0, st))"
    by (simp add: funpow_add first)
  finally have "\<not> active r'"
    using intervalTicks_stop [where get = download and put = "\<lambda>v prev. prev\<lparr>download := v\<rparr>"
        and cap = 60 and T = speedMbps and n = "20 + ticks e" and st = st, OF down]
    by (simp add: split_beta)
  moreover have "\<not> active r' \<longrightarrow> download (metrics st') = speedMbps"
    using intervalTicks_late [where get = download and put = "\<lambda>v prev. prev\<lparr>download := v\<rparr>"
        and cap = 60 and T = speedMbps and s = "speedMbps / 20" and n = 20 and r = r and st = stT, OF down]
      late mT by simp
  ultimately have d: "download (metrics st') = speedMbps"
    by simp
  have keep: "upload (metrics st') = upload (metrics stT) \<and> ping (metrics st') = ping (metrics stT) \<and>
      jitter (metrics st') = jitter (metrics stT)"
    using intervalTicks_other_fields [where put = "\<lambda>v prev. prev\<lparr>download := v\<rparr>" and cap = 60
        and T = speedMbps and s = "speedMbps / 20" and n = 20 and r = r and st = stT and f = upload]
      intervalTicks_other_fields [where put = "\<lambda>v prev. prev\<lparr>download := v\<rparr>" and cap = 60
        and T = speedMbps and s = "speedMbps / 20" and n = 20 and r = r and st = stT and f = ping]
      intervalTicks_other_fields [where put = "\<lambda>v prev. prev\<lparr>download := v\<rparr>" and cap = 60
        and T = speedMbps and s = "speedMbps / 20" and n = 20 and r = r and st = stT and f = jitter]
      late
    by simp
  show ?thesis
    using d keep mT by (simp add: fin)
qed

lemma runSpeedTest_Completed:
  assumes "runSpeedTest e st = Some (Completed, st')"
  shows "\<exists>finalSpeed avgPing jit st3. st' = uploadPhase e finalSpeed avgPing jit st3"
proof -
  from assms have nt: "\<not> testing st"
    by (auto simp add: runSpeedTest_def)
  obtain lr st2 where lat: "latencyPhase e (startState e st) = (lr, st2)"
    by (cases "latencyPhase e (startState e st)")
  with assms nt obtain avgPing jit where lr: "lr = Inr (avgPing, jit)"
    by (cases lr) (auto simp add: runSpeedTest_def)
  with assms nt lat obtain dr st3 where dl: "downloadPhase e st2 = Some (dr, st3)"
    by (cases "downloadPhase e st2") (auto simp add: runSpeedTest_def)
  with assms nt lat lr obtain finalSpeed where "dr = Inr finalSpeed"
    by (cases dr) (auto simp add: runSpeedTest_def)
  with assms nt lat lr dl have "st' = uploadPhase e finalSpeed avgPing jit st3"
    by (simp add: runSpeedTest_def)
  then show ?thesis by blast
qed

lemma runSpeedTest_v30_Completed:
  assumes "runSpeedTest_v30 e st = (Completed, st')"
  shows "\<exists>speedMbps avgPing jit st2. st' = finishPhase_v30 e speedMbps avgPing jit st2"
proof -
  from assms have nt: "\<not> testing st"
    by (auto simp add: runSpeedTest_v30_def)
  obtain lr st2 where lat: "latencyPhase_v30 e (startState_v30 e st) = (lr, st2)"
    by (cases "latencyPhase_v30 e (startState_v30 e st)")
  with assms nt obtain avgPing jit where lr: "lr = Inr (avgPing, jit)"
    by (cases lr) (auto simp add: runSpeedTest_v30_def)
  with assms nt lat obtain ms where "imageFetch e = Some ms"
    by (cases "imageFetch e") (auto simp add: runSpeedTest_v30_def)
  with assms nt lat lr have "st' = finishPhase_v30 e (speedMbps_v30 ms) avgPing jit st2"
    by (simp add: runSpeedTest_v30_def)
  then show ?thesis by blast
qed

text \<open>
  Claim C5, as the code has it. The upload figure of a completed run is computed from
  the final download figure and the connection hint alone: it is the download figure
  times a ratio, rounded to the nearest integer. In v3.5.0 the ratio is 0.8 when the
  hint reports a round-trip time below 15 and 0.2 otherwise; in v3.0.0 it is 0.1 when
  the hint reports a cellular connection and 0.3 otherwise. When the hint is absent the
  second ratio applies (0.2 and 0.3): the measured ping plays no part.
\<close>

theorem upload_is_estimated_from_download:
  "(runSpeedTest e st = Some (Completed, st') \<longrightarrow>
      upload (metrics st') =
        Math_round (download (metrics st') * (if rttBelow15 (connection e) then 8 / 10 else 2 / 10)) \<and>
      (connection e = None \<longrightarrow> upload (metrics st') = Math_round (download (metrics st') * (2 / 10)))) \<and>
   (runSpeedTest_v30 e st = (Completed, st') \<longrightarrow>
      upload (metrics st') =
        Math_round (download (metrics st') *
          (if (case connection e of None \<Rightarrow> False | Some k \<Rightarrow> connType k = Some ''cellular'')
           then 1 / 10 else 3 / 10)) \<and>
      (connection e = None \<longrightarrow> upload (metrics st') = Math_round (download (metrics st') * (3 / 10))))"
proof (intro conjI impI)
  assume "runSpeedTest e st = Some (Completed, st')"
  from runSpeedTest_Completed [OF this] obtain finalSpeed avgPing jit st3
    where "st' = uploadPhase e finalSpeed avgPing jit st3" by blast
  then have m: "download (metrics st') = finalSpeed"
    "upload (metrics st') = simulatedUpload (connection e) finalSpeed"
    by (simp_all add: uploadPhase_metrics)
  then show "upload (metrics st') =
      Math_round (download (metrics st') * (if rttBelow15 (connection e) then 8 / 10 else 2 / 10))"
    by (simp add: simulatedUpload_def)
  assume "connection e = None"
  with m show "upload (metrics st') = Math_round (download (metrics st') * (2 / 10))"
    by (simp add: simulatedUpload_def rttBelow15_def)
next
  assume "runSpeedTest_v30 e st = (Completed, st')"
  from runSpeedTest_v30_Completed [OF this] obtain speedMbps avgPing jit st2
    where "st' = finishPhase_v30 e speedMbps avgPing jit st2" by blast
  then have m: "download (metrics st') = speedMbps"
    "upload (metrics st') = simulatedUpload_v30 (connection e) speedMbps"
    by (simp_all add: finishPhase_v30_metrics)
  then show "upload (metrics st') =
        Math_round (download (metrics st') *
          (if (case connection e of None \<Rightarrow> False | Some k \<Rightarrow> connType k = Some ''cellular'')
           then 1 / 10 else 3 / 10))"
    by (simp add: simulatedUpload_v30_def)
  assume "connection e = None"
  with m show "upload (metrics st') = Math_round (download (metrics st') * (3 / 10))"
    by (simp add: simulatedUpload_v30_def)
qed


theorem upload_is_estimated_from_download_witness:
  "map_option (upload \<circ> metrics \<circ> snd) (runSpeedTest quietEnv initialApp) =
     Some (Math_round (79 * (2 / 10))) \<and>
   map_option (upload \<circ> metrics \<circ> snd) (runSpeedTest fiberEnv initialApp) =
     Some (Math_round (79 * (8 / 10))) \<and>
   upload (metrics (snd (runSpeedTest_v30 quietEnv initialApp))) = Math_round (19 * (3 / 10)) \<and>
   upload (metrics (snd (runSpeedTest_v30 cellularEnv initialApp))) = Math_round (19 * (1 / 10)) \<and>
   Math_round (79 * (2 / 10)) = 16 \<and> Math_round (79 * (8 / 10)) = 63 \<and>
   Math_round (19 * (3 / 10)) = 6 \<and> Math_round (19 * (1 / 10)) = 2"
proof -
  obtain q where q: "runSpeedTest quietEnv initialApp = Some (Completed, q)"
    and dq: "download (metrics q) = 79"
    by (simp add: quiet_run)
  obtain f where f: "runSpeedTest fiberEnv initialApp = Some (Completed, f)"
    and df: "download (metrics f) = 79"
    by (simp add: fiber_run)
  obtain q30 where q30: "runSpeedTest_v30 quietEnv initialApp = (Completed, q30)"
    and dq30: "download (metrics q30) = 19"
    by (simp add: quiet_run_v30)
  obtain c30 where c30: "runSpeedTest_v30 cellularEnv initialApp = (Completed, c30)"
    and dc30: "download (metrics c30) = 19"
    by (simp add: cellular_run_v30)
  have none: "connection quietEnv = None"
    by (simp add: quietEnv_def)
  have fiber: "rttBelow15 (connection fiberEnv)"
    by (simp add: fiberEnv_def rttBelow15_def)
  have cellular: "(case connection cellularEnv of None \<Rightarrow> False
      | Some k \<Rightarrow> connType k = Some ''cellular'')"
    by (simp add: cellularEnv_def)
  have vals: "Math_round (79 * (2 / 10)) = 16" "Math_round (79 * (8 / 10)) = 63"
    "Math_round (19 * (3 / 10)) = 6" "Math_round (19 * (1 / 10)) = 2"
    by code_simp+
  have "upload (metrics q) = Math_round (79 * (2 / 10))"
    using upload_is_estimated_from_download [of quietEnv initialApp q] q none dq
    by simp
  moreover have "upload (metrics f) = Math_round (79 * (8 / 10))"
    using upload_is_estimated_from_download [of fiberEnv initialApp f] f fiber df
    by simp
  moreover have "upload (metrics q30) = Math_round (19 * (3 / 10))"
    using upload_is_estimated_from_download [of quietEnv initialApp q30] q30 none dq30
    by simp
  moreover have "upload (metrics c30) = Math_round (19 * (1 / 10))"
    using upload_is_estimated_from_download [of cellularEnv initialApp c30] c30 cellular dc30
    by simp
  ultimately show ?thesis
    using vals by (simp only: q f q30 c30 option.map comp_apply snd_conv simp_thms)
qed

text \<open>
  The claim as the specification words it fails twice. Three runs of v3.5.0 without a
  connection hint: with pings of about 21 ms and of 400 ms the upload is the same 16 for
  download 79, so the ping does not choose the ratio; and download 79 gives upload 16
  while download 12 gives upload 2, so the upload is not the download times one fixed
  ratio (16 is not 79 times 0.2).
\<close>

theorem upload_ratio_counterexample:
  "connection quietEnv = None \<and> connection slowPingEnv = None \<and> connection slowLinkEnv = None \<and>
   map_option (metrics \<circ> snd) (runSpeedTest quietEnv initialApp) =
     Some \<lparr>download = 79, upload = 16, ping = 21, jitter = 4, signalStrength = 79\<rparr> \<and>
   map_option (metrics \<circ> snd) (runSpeedTest slowPingEnv initialApp) =
     Some \<lparr>download = 79, upload = 16, ping = 400, jitter = 0, signalStrength = 0\<rparr> \<and>
   map_option (metrics \<circ> snd) (runSpeedTest slowLinkEnv initialApp) =
     Some \<lparr>download = 12, upload = 2, ping = 21, jitter = 4, signalStrength = 79\<rparr> \<and>
   (16 :: rat) / 79 \<noteq> 2 / 12 \<and> (16 :: rat) \<noteq> 79 * (2 / 10)"
proof -
  have "connection quietEnv = None" "connection slowPingEnv = None" "connection slowLinkEnv = None"
    by (simp_all add: slowPingEnv_def slowLinkEnv_def quietEnv_def)
  then show ?thesis
    by (simp add: quiet_run slowPing_run slowLink_run)
qed

section \<open>Result history\<close>



text \<open>
  Claim C10. When the stored text parses to an array, \<open>loadHistory\<close> sets the
  history to exactly that array and changes nothing else: no truncation to ten
  entries and no reordering. (The stored text is not empty: the empty string is not
  JSON, and the code treats it like an absent key.)
\<close>

theorem loadHistory_verbatim:
  "map_of (localStorage st) ''netdash_history'' = Some saved \<Longrightarrow> saved \<noteq> [] \<Longrightarrow>
   JSON_parse saved = Some parsed \<Longrightarrow>
   loadHistory JSON_parse st = Inr (st\<lparr>history := parsed\<rparr>)"
  by (simp add: loadHistory_def setHistory_def)

theorem loadHistory_verbatim_witness:
  "loadHistory (\<lambda>s. if s = ''+++++++++++'' then Some (map resultAt [3, 1, 2, 4, 5, 6, 7, 8, 9, 10, 11]) else None)
     (initialApp\<lparr>localStorage := [(''netdash_history'', ''+++++++++++'')]\<rparr>) =
   Inr (initialApp\<lparr>localStorage := [(''netdash_history'', ''+++++++++++'')],
          history := map resultAt [3, 1, 2, 4, 5, 6, 7, 8, 9, 10, 11]\<rparr>) \<and>
   length (map resultAt [3, 1, 2, 4, 5, 6, 7, 8, 9, 10, 11]) = 11"
proof -
  let ?parse = "\<lambda>s. if s = ''+++++++++++'' then Some (map resultAt [3, 1, 2, 4, 5, 6, 7, 8, 9, 10, 11]) else None"
  let ?st = "initialApp\<lparr>localStorage := [(''netdash_history'', ''+++++++++++'')]\<rparr>"
  have "map_of (localStorage ?st) ''netdash_history'' = Some ''+++++++++++''"
    and "''+++++++++++'' \<noteq> []"
    and "?parse ''+++++++++++'' = Some (map resultAt [3, 1, 2, 4, 5, 6, 7, 8, 9, 10, 11])"
    by simp_all
  from loadHistory_verbatim [of ?st "''+++++++++++''" ?parse, OF this]
  show ?thesis by simp
qed

section \<open>Quality-of-service verdicts\<close>

text \<open>
  Claim C8. \<open>getQoS\<close> depends on the metrics alone and returns four verdicts in a
  fixed order: 4K streaming passes iff download exceeds 25, online gaming iff the ping
  lies strictly between 0 and 50, video calls iff download exceeds 10 and upload
  exceeds 2, large files iff download exceeds 50.
\<close>

theorem getQoS_verdicts:
  "map fst (getQoS m) = [''4K Streaming'', ''Online Gaming'', ''Video Calls'', ''Large Files''] \<and>
   map snd (getQoS m) =
     [25 < download m, 0 < ping m \<and> ping m < 50, 10 < download m \<and> 2 < upload m, 50 < download m]"
  by (auto simp add: getQoS_def Let_def)

section \<open>Exclusive run\<close>

text \<open>
  Claim C7. A call of \<open>runSpeedTest\<close> while \<open>testing\<close> is true returns at once,
  without an error, and leaves the whole state as it was: metrics, progress, history
  and log included. This holds for v3.5.0 and for v3.0.0.
\<close>

theorem runSpeedTest_while_testing_is_noop:
  "testing st \<Longrightarrow>
   runSpeedTest e st = Some (Ignored, st) \<and> runSpeedTest_v30 e st = (Ignored, st)"
  by (simp add: runSpeedTest_def runSpeedTest_v30_def)

theorem runSpeedTest_while_testing_is_noop_witness:
  "testing (initialApp\<lparr>testing := True, progress := 42\<rparr>) \<and>
   runSpeedTest quietEnv (initialApp\<lparr>testing := True, progress := 42\<rparr>) =
     Some (Ignored, initialApp\<lparr>testing := True, progress := 42\<rparr>) \<and>
   runSpeedTest_v30 quietEnv (initialApp\<lparr>testing := True, progress := 42\<rparr>) =
     (Ignored, initialApp\<lparr>testing := True, progress := 42\<rparr>)"
proof -
  have "testing (initialApp\<lparr>testing := True, progress := 42\<rparr>)"
    by simp
  from this runSpeedTest_while_testing_is_noop [OF this, of quietEnv]
  show ?thesis by simp
qed


end
